theory Spec2Isabelle
  imports Complex_Main
begin
section \<open>JSON values, Python exceptions\<close>

text \<open>
  The state machine's data, the Lambda events and the Lambda results are JSON documents.
  Only the shapes the notebook uses are modelled: null (Python \<open>None\<close>), strings and
  objects (Python dicts, as association lists read with \<open>map_of\<close>).
\<close>

datatype jv = JNull | JS string | JO "(string \<times> jv) list"

text \<open>
  A raised exception, and a failed Task as the state machine sees it: \<open>etype\<close> is the
  error name (the exception class for a handler that raises, a \<open>Lambda.*\<close> name for a
  fault of the Lambda service), \<open>emsg\<close> the human-readable text (\<open>str(e)\<close>).
\<close>

record exn =
  etype :: string
  emsg :: string

text \<open>\<open>d.get(k)\<close> on a dict; a non-dict has no field.\<close>

fun get_field :: "jv \<Rightarrow> string \<Rightarrow> jv option" where
  "get_field (JO kvs) k = map_of kvs k"
| "get_field JNull k = None"
| "get_field (JS s) k = None"

text \<open>A JSONPath \<open>$.a.b\<close> is the list of its field names.\<close>

fun lookup_path :: "string list \<Rightarrow> jv \<Rightarrow> jv option" where
  "lookup_path [] d = Some d"
| "lookup_path (k # ks) d =
     (case get_field d k of None \<Rightarrow> None | Some v \<Rightarrow> lookup_path ks v)"

text \<open>Writing a value at a path of a document (\<open>ResultPath\<close>); only objects have fields.\<close>

fun set_path :: "string list \<Rightarrow> jv \<Rightarrow> jv \<Rightarrow> jv option" where
  "set_path [] v d = Some v"
| "set_path (k # ks) v (JO kvs) =
     (case set_path ks v (case map_of kvs k of None \<Rightarrow> JO [] | Some d' \<Rightarrow> d') of
        None \<Rightarrow> None
      | Some d'' \<Rightarrow> Some (JO ((k, d'') # filter (\<lambda>kv. fst kv \<noteq> k) kvs)))"
| "set_path (k # ks) v JNull = None"
| "set_path (k # ks) v (JS s) = None"

text \<open>
  How a value is shown inside a formatted message (\<open>States.Format\<close>, a Python f-string).
  Strings are inserted as they are. Every statement below that reads a message is about
  string entity ids; how the two runtimes print an object is not modelled.
\<close>

fun render :: "jv \<Rightarrow> string" where
  "render (JS s) = s"
| "render JNull = ''null''"
| "render (JO kvs) = ''{...}''"

fun py_str :: "jv \<Rightarrow> string" where
  "py_str (JS s) = s"
| "py_str JNull = ''None''"
| "py_str (JO kvs) = ''{...}''"

text \<open>\<open>States.Format\<close>: each \<open>{}\<close> of the template takes the next argument.\<close>

fun format_str :: "string \<Rightarrow> string list \<Rightarrow> string" where
  "format_str [] args = []"
| "format_str [c] args = [c]"
| "format_str (c # d # cs) args =
     (if c = CHR ''{'' \<and> d = CHR ''}'' then
        (case args of [] \<Rightarrow> format_str cs [] | a # as \<Rightarrow> a @ format_str cs as)
      else c # format_str (d # cs) args)"

section \<open>The workflow engine: Task states with Retry and Catch\<close>

text \<open>
  The notebook names its states \<open>Agent{i}Step\<close>, \<open>NotifySuccess\<close> and
  \<open>FailureNotify\<close>; the names are kept as a datatype.
\<close>

datatype state_name = AgentStep nat | NotifySuccess | FailureNotify

datatype resource = Lambda nat | SnsPublish

datatype pexpr = Lit string | Path "string list" | Format string "string list list"

record retrier =
  r_ErrorEquals :: "string list"
  IntervalSeconds :: nat
  MaxAttempts :: nat
  BackoffRate :: real

record catcher =
  c_ErrorEquals :: "string list"
  ResultPath :: "string list"
  c_Next :: state_name

text \<open>\<open>Next = None\<close> is \<open>"End": True\<close>.\<close>

record task_state =
  Resource :: resource
  Parameters :: "(string \<times> pexpr) list"
  Retry :: "retrier list"
  Catch :: "catcher list"
  Next :: "state_name option"

text \<open>
  What an execution leaves behind for inspection (its history): the states entered, the
  calls made to a resource with the payload sent and what came back, and each retry with
  the error and the delay waited.
\<close>

datatype event =
    Entered state_name
  | Called resource jv "exn + jv"
  | Retrying state_name exn real

datatype outcome = Completed state_name jv | Aborted exn

text \<open>
  The status \<open>describe_execution\<close> reports once the execution is over: an execution that
  leaves a state with \<open>"End": True\<close> has succeeded, whichever state that is; one stopped
  by an error that no Catch takes has failed.
\<close>

datatype status = SUCCEEDED | FAILED

fun status_of :: "outcome \<Rightarrow> status" where
  "status_of (Completed s out) = SUCCEEDED"
| "status_of (Aborted e) = FAILED"

fun eval_pexpr :: "jv \<Rightarrow> pexpr \<Rightarrow> jv option" where
  "eval_pexpr d (Lit s) = Some (JS s)"
| "eval_pexpr d (Path p) = lookup_path p d"
| "eval_pexpr d (Format t ps) =
     (case those (map (\<lambda>p. lookup_path p d) ps) of
        None \<Rightarrow> None
      | Some vs \<Rightarrow> Some (JS (format_str t (map render vs))))"

fun eval_params :: "(string \<times> pexpr) list \<Rightarrow> jv \<Rightarrow> (string \<times> jv) list option" where
  "eval_params [] d = Some []"
| "eval_params ((k, px) # ps) d =
     (case eval_pexpr d px of
        None \<Rightarrow> None
      | Some v \<Rightarrow> (case eval_params ps d of None \<Rightarrow> None | Some kvs \<Rightarrow> Some ((k, v) # kvs)))"

definition matches :: "string list \<Rightarrow> exn \<Rightarrow> bool" where
  "matches names e \<longleftrightarrow> ''States.ALL'' \<in> set names \<or> etype e \<in> set names"

text \<open>
  The first retrier whose \<open>ErrorEquals\<close> matches decides. Each retrier counts the
  retries it has granted; \<open>MaxAttempts\<close> bounds that count (the Readme: "retry up to 3
  times with backoff"), so a state is tried at most \<open>1 + MaxAttempts\<close> times. The delay
  before retry number \<open>c\<close> (from 0) is \<open>IntervalSeconds * BackoffRate ^ c\<close>.
\<close>

fun pick_retrier :: "exn \<Rightarrow> (retrier \<times> nat) list \<Rightarrow> ((retrier \<times> nat) list \<times> real) option" where
  "pick_retrier e [] = None"
| "pick_retrier e ((r, c) # rs) =
     (if matches (r_ErrorEquals r) e then
        (if c < MaxAttempts r
         then Some ((r, Suc c) # rs, real (IntervalSeconds r) * BackoffRate r ^ c)
         else None)
      else (case pick_retrier e rs of
              None \<Rightarrow> None
            | Some (rs', d) \<Rightarrow> Some ((r, c) # rs', d)))"

definition retry_budget :: "(retrier \<times> nat) list \<Rightarrow> nat" where
  "retry_budget rs = sum_list (map (\<lambda>rc. MaxAttempts (fst rc) - snd rc) rs)"

text \<open>
  One Task state: call the resource; on an error that a retrier still covers, wait and
  call again with the same payload; otherwise give the result or the error back.
  \<open>perform\<close> is the service integration (a Lambda invocation or an SDK call), acting on
  the world \<open>'w\<close> outside the engine.
\<close>

function attempt ::
  "(resource \<Rightarrow> jv \<Rightarrow> 'w \<Rightarrow> (exn + jv) \<times> 'w) \<Rightarrow> state_name \<Rightarrow> resource \<Rightarrow> jv \<Rightarrow>
   (retrier \<times> nat) list \<Rightarrow> event list \<Rightarrow> 'w \<Rightarrow> (exn + jv) \<times> event list \<times> 'w" where
  "attempt perform name res payload rs tr w =
     (case perform res payload w of
        (Inr out, w') \<Rightarrow> (Inr out, tr @ [Called res payload (Inr out)], w')
      | (Inl e, w') \<Rightarrow>
          (case pick_retrier e rs of
             None \<Rightarrow> (Inl e, tr @ [Called res payload (Inl e)], w')
           | Some (rs', d) \<Rightarrow>
               attempt perform name res payload rs'
                 (tr @ [Called res payload (Inl e), Retrying name e d]) w'))"
  by pat_completeness auto
termination
proof -
  have budget: "retry_budget rs' < retry_budget rs"
    if "pick_retrier e rs = Some (rs', d)" for e rs rs' d
    using that
  proof (induction rs arbitrary: rs' d)
    case Nil
    then show ?case by simp
  next
    case (Cons rc rs)
    obtain r c where rc: "rc = (r, c)" by (cases rc)
    show ?case
    proof (cases "matches (r_ErrorEquals r) e")
      case True
      with Cons.prems rc show ?thesis
        by (auto simp: retry_budget_def split: if_splits)
    next
      case False
      with Cons.prems rc obtain rs0 where
        p: "pick_retrier e rs = Some (rs0, d)" and r': "rs' = (r, c) # rs0"
        by (auto split: option.splits)
      from Cons.IH [OF p] r' rc show ?thesis
        by (simp add: retry_budget_def)
    qed
  qed
  show ?thesis
    by (relation "measure (\<lambda>(perform, name, res, payload, rs, tr, w). retry_budget rs)")
       (auto dest: budget)
qed

declare attempt.simps [simp del]

definition error_obj :: "exn \<Rightarrow> jv" where
  "error_obj e = JO [(''Error'', JS (etype e)), (''Cause'', JS (emsg e))]"

definition runtime_error :: "string \<Rightarrow> exn" where
  "runtime_error txt = \<lparr>etype = ''States.Runtime'', emsg = txt\<rparr>"

text \<open>
  The interpreter. A state's result replaces its input (the Readme: "by default result
  replaces input"); a catcher writes the error object at its \<open>ResultPath\<close> of the
  state's input and goes to its \<open>Next\<close>; an error no catcher matches ends the execution
  with that error. A state graph may have cycles, so the interpreter takes fuel, one unit
  per state entered; \<open>None\<close> is fuel exhausted.
\<close>

fun exec ::
  "(resource \<Rightarrow> jv \<Rightarrow> 'w \<Rightarrow> (exn + jv) \<times> 'w) \<Rightarrow> (state_name \<Rightarrow> task_state option) \<Rightarrow> nat \<Rightarrow>
   state_name \<Rightarrow> jv \<Rightarrow> event list \<Rightarrow> 'w \<Rightarrow> (outcome \<times> event list \<times> 'w) option" where
  "exec perform states 0 name data tr w = None"
| "exec perform states (Suc fuel) name data tr w =
     (case states name of
        None \<Rightarrow> Some (Aborted (runtime_error ''no such state''), tr, w)
      | Some st \<Rightarrow>
          (case eval_params (Parameters st) data of
             None \<Rightarrow> Some (Aborted (runtime_error ''path not found''), tr @ [Entered name], w)
           | Some kvs \<Rightarrow>
               (case attempt perform name (Resource st) (JO kvs)
                       (map (\<lambda>r. (r, 0)) (Retry st)) (tr @ [Entered name]) w of
                  (Inr out, tr', w') \<Rightarrow>
                    (case Next st of
                       None \<Rightarrow> Some (Completed name out, tr', w')
                     | Some nxt \<Rightarrow> exec perform states fuel nxt out tr' w')
                | (Inl e, tr', w') \<Rightarrow>
                    (case find (\<lambda>c. matches (c_ErrorEquals c) e) (Catch st) of
                       None \<Rightarrow> Some (Aborted e, tr', w')
                     | Some c \<Rightarrow>
                         (case set_path (ResultPath c) (error_obj e) data of
                            None \<Rightarrow> Some (Aborted (runtime_error ''result path''), tr', w')
                          | Some data' \<Rightarrow> exec perform states fuel (c_Next c) data' tr' w')))))"

section \<open>The state machine the notebook builds\<close>

text \<open>
  The Readme and the notebook build the same graph and differ in the wording of the two
  notifications, which is therefore a parameter.
\<close>

record wording =
  topic_arn :: string
  success_template :: string
  success_subject :: string
  failure_template :: string
  failure_subject :: string

definition readme_wording :: "string \<Rightarrow> wording" where
  "readme_wording arn =
     \<lparr>topic_arn = arn,
      success_template = ''Campaign {} completed successfully.'',
      success_subject = ''Campaign Plan Successful'',
      failure_template = ''Campaign {} FAILED. Error: {}'',
      failure_subject = ''Campaign Plan Failed''\<rparr>"

definition notebook_wording :: "string \<Rightarrow> wording" where
  "notebook_wording arn =
     \<lparr>topic_arn = arn,
      success_template = ''Campaign {} completed.'',
      success_subject = ''Campaign Success'',
      failure_template = ''Campaign {} failed: {}'',
      failure_subject = ''Campaign Failed''\<rparr>"

definition lambda_retry :: retrier where
  "lambda_retry =
     \<lparr>r_ErrorEquals = [''Lambda.ServiceException'', ''Lambda.AWSLambdaException'',
                        ''Lambda.SdkClientException''],
      IntervalSeconds = 2, MaxAttempts = 3, BackoffRate = 2\<rparr>"

definition catch_all :: catcher where
  "catch_all = \<lparr>c_ErrorEquals = [''States.ALL''], ResultPath = [''error''], c_Next = FailureNotify\<rparr>"

text \<open>
  The loop \<open>for i in range(6)\<close> with \<open>Next = Agent{i+1}Step if i < 5 else NotifySuccess\<close>,
  written for \<open>n\<close> agents; the notebook's machine is \<open>n = 6\<close>.
\<close>

definition agent_state :: "nat \<Rightarrow> nat \<Rightarrow> task_state" where
  "agent_state n i =
     \<lparr>Resource = Lambda i,
      Parameters = [(''campaign_id'', Path [''campaign_id''])],
      Retry = [lambda_retry],
      Catch = [catch_all],
      Next = Some (if i < n - 1 then AgentStep (i + 1) else NotifySuccess)\<rparr>"

definition notify_success :: "wording \<Rightarrow> task_state" where
  "notify_success wd =
     \<lparr>Resource = SnsPublish,
      Parameters = [(''TopicArn'', Lit (topic_arn wd)),
                    (''Message'', Format (success_template wd) [[''campaign_id'']]),
                    (''Subject'', Lit (success_subject wd))],
      Retry = [], Catch = [], Next = None\<rparr>"

definition failure_notify :: "wording \<Rightarrow> task_state" where
  "failure_notify wd =
     \<lparr>Resource = SnsPublish,
      Parameters = [(''TopicArn'', Lit (topic_arn wd)),
                    (''Message'', Format (failure_template wd)
                                    [[''campaign_id''], [''error'', ''Error'']]),
                    (''Subject'', Lit (failure_subject wd))],
      Retry = [], Catch = [], Next = None\<rparr>"

definition states :: "nat \<Rightarrow> wording \<Rightarrow> state_name \<Rightarrow> task_state option" where
  "states n wd name =
     (case name of
        AgentStep i \<Rightarrow> if i < n then Some (agent_state n i) else None
      | NotifySuccess \<Rightarrow> Some (notify_success wd)
      | FailureNotify \<Rightarrow> Some (failure_notify wd))"

definition num_agents :: nat where
  "num_agents = 6"

text \<open>
  \<open>start_execution\<close>: \<open>StartAt = Agent0Step\<close>, with an empty history. A run enters at
  most \<open>n + 1\<close> states, so that much fuel is what the machine is given.
\<close>

definition start_execution ::
  "(resource \<Rightarrow> jv \<Rightarrow> 'w \<Rightarrow> (exn + jv) \<times> 'w) \<Rightarrow> nat \<Rightarrow> wording \<Rightarrow> jv \<Rightarrow> 'w \<Rightarrow>
   (outcome \<times> event list \<times> 'w) option" where
  "start_execution perform n wd input w =
     exec perform (states n wd) (n + 1) (AgentStep 0) input [] w"

section \<open>The world outside the engine\<close>

text \<open>
  The DynamoDB table has the composite key \<open>(campaign_id, step)\<close>; an item is
  \<open>(campaign_id, step, data)\<close>. The data of \<open>input_extracted\<close> is the JSON value whose
  \<open>json.dumps\<close> the code of Agent0 stores and the later agents \<open>json.loads\<close>; the other steps store
  text. \<open>sns_calls\<close> lists every \<open>sns.publish\<close> call as \<open>(Subject, Message)\<close>,
  \<open>assets\<close> the objects of the assets bucket as \<open>(Key, Body)\<close>. \<open>tick\<close> counts the
  calls made to services so far.
\<close>

type_synonym item = "string \<times> string \<times> jv"

record world =
  table :: "item list"
  assets :: "(string \<times> string) list"
  sns_calls :: "(string \<times> string) list"
  tick :: nat

text \<open>
  What the services answer is not in the repository: it is read from an oracle, asked
  with the number of the call. \<open>s3_brief\<close> is \<open>s3.get_object\<close> with the decoding and
  parsing of the brief that follows it; \<open>bedrock_text\<close> is \<open>invoke_model\<close> with the
  \<open>json.loads\<close> of its body and the extraction of \<open>outputText\<close>: each either raises
  or yields the value. The prompts are built from
  what was read and do not touch the stores; their text is not modelled.
\<close>

record services =
  lambda_fault :: "nat \<Rightarrow> exn option"
  s3_brief :: "nat \<Rightarrow> exn + jv"
  bedrock_text :: "nat \<Rightarrow> exn + string"
  dynamo_fault :: "nat \<Rightarrow> exn option"
  s3_put_fault :: "nat \<Rightarrow> exn option"
  sns_fault :: "nat \<Rightarrow> exn option"

type_synonym 'a act = "world \<Rightarrow> (exn + 'a) \<times> world"

definition ret :: "'a \<Rightarrow> 'a act" where
  "ret x w = (Inr x, w)"

definition raise :: "exn \<Rightarrow> 'a act" where
  "raise e w = (Inl e, w)"

definition and_then :: "'a act \<Rightarrow> ('a \<Rightarrow> 'b act) \<Rightarrow> 'b act" where
  "and_then m f w = (case m w of (Inl e, w') \<Rightarrow> (Inl e, w') | (Inr x, w') \<Rightarrow> f x w')"

definition next_tick :: "world \<Rightarrow> world" where
  "next_tick w = w\<lparr>tick := Suc (tick w)\<rparr>"

definition attribute_error :: exn where
  "attribute_error = \<lparr>etype = ''AttributeError'', emsg = ''object has no attribute''\<rparr>"

definition param_validation :: exn where
  "param_validation = \<lparr>etype = ''ParamValidationError'', emsg = ''Parameter validation failed''\<rparr>"

definition unbound_local :: exn where
  "unbound_local = \<lparr>etype = ''UnboundLocalError'', emsg = ''local variable referenced before assignment''\<rparr>"

text \<open>
  What building a set that holds a dict raises (\<open>{ {"k": v} }\<close> is a set display
  whose one element is a dict).
\<close>

definition type_error :: exn where
  "type_error = \<lparr>etype = ''TypeError'',
                 emsg = ''unhashable type: '' @ [CHR 0x27] @ ''dict'' @ [CHR 0x27]\<rparr>"

definition resource_not_found :: exn where
  "resource_not_found = \<lparr>etype = ''Lambda.ResourceNotFoundException'', emsg = ''Function not found''\<rparr>"

text \<open>\<open>d.get(k, default)\<close>; on a value that is not a dict Python raises AttributeError.\<close>

definition dict_get :: "jv \<Rightarrow> string \<Rightarrow> jv \<Rightarrow> jv act" where
  "dict_get d k dflt =
     (case d of
        JO kvs \<Rightarrow> ret (case map_of kvs k of None \<Rightarrow> dflt | Some v \<Rightarrow> v)
      | JNull \<Rightarrow> raise attribute_error
      | JS s \<Rightarrow> raise attribute_error)"

fun truthy :: "jv \<Rightarrow> bool" where
  "truthy JNull = False"
| "truthy (JS s) = (s \<noteq> [])"
| "truthy (JO kvs) = (kvs \<noteq> [])"

definition item_key :: "item \<Rightarrow> string \<times> string" where
  "item_key it = (fst it, fst (snd it))"

definition lookup_item :: "item list \<Rightarrow> string \<Rightarrow> string \<Rightarrow> jv option" where
  "lookup_item tbl c s = map_option (\<lambda>it. snd (snd it)) (find (\<lambda>it. item_key it = (c, s)) tbl)"

text \<open>\<open>put_item\<close> creates the item or replaces the one with the same key.\<close>

definition store_item :: "item list \<Rightarrow> string \<Rightarrow> string \<Rightarrow> jv \<Rightarrow> item list" where
  "store_item tbl c s d = filter (\<lambda>it. item_key it \<noteq> (c, s)) tbl @ [(c, s, d)]"

text \<open>
  The key attribute is sent as \<open>{"S": campaign_id}\<close>: a value that is not a string is
  refused by the client before any call is made.
\<close>

definition dynamodb_get_item :: "services \<Rightarrow> jv \<Rightarrow> string \<Rightarrow> jv option act" where
  "dynamodb_get_item orc cid step w =
     (case cid of
        JS c \<Rightarrow>
          (case dynamo_fault orc (tick w) of
             Some e \<Rightarrow> (Inl e, next_tick w)
           | None \<Rightarrow> (Inr (lookup_item (table w) c step), next_tick w))
      | JNull \<Rightarrow> (Inl param_validation, w)
      | JO kvs \<Rightarrow> (Inl param_validation, w))"

definition dynamodb_put_item :: "services \<Rightarrow> jv \<Rightarrow> string \<Rightarrow> jv \<Rightarrow> unit act" where
  "dynamodb_put_item orc cid step d w =
     (case cid of
        JS c \<Rightarrow>
          (case dynamo_fault orc (tick w) of
             Some e \<Rightarrow> (Inl e, next_tick w)
           | None \<Rightarrow> (Inr (), next_tick (w\<lparr>table := store_item (table w) c step d\<rparr>)))
      | JNull \<Rightarrow> (Inl param_validation, w)
      | JO kvs \<Rightarrow> (Inl param_validation, w))"

definition s3_get_brief :: "services \<Rightarrow> jv act" where
  "s3_get_brief orc w =
     (case s3_brief orc (tick w) of Inl e \<Rightarrow> (Inl e, next_tick w) | Inr b \<Rightarrow> (Inr b, next_tick w))"

definition s3_put_object :: "services \<Rightarrow> string \<Rightarrow> string \<Rightarrow> unit act" where
  "s3_put_object orc k body w =
     (case s3_put_fault orc (tick w) of
        Some e \<Rightarrow> (Inl e, next_tick w)
      | None \<Rightarrow> (Inr (), next_tick (w\<lparr>assets := filter (\<lambda>kb. fst kb \<noteq> k) (assets w) @ [(k, body)]\<rparr>)))"

definition invoke_model_text :: "services \<Rightarrow> string act" where
  "invoke_model_text orc w =
     (case bedrock_text orc (tick w) of Inl e \<Rightarrow> (Inl e, next_tick w) | Inr t \<Rightarrow> (Inr t, next_tick w))"

definition sns_publish :: "services \<Rightarrow> string \<Rightarrow> string \<Rightarrow> unit act" where
  "sns_publish orc message subject w =
     (let w' = next_tick (w\<lparr>sns_calls := sns_calls w @ [(subject, message)]\<rparr>)
      in case sns_fault orc (tick w) of Some e \<Rightarrow> (Inl e, w') | None \<Rightarrow> (Inr (), w'))"

text \<open>
  The Kendra query of Agent1 sits in its own \<open>try\<close> whose \<open>except\<close> only logs a
  warning; its answer goes into the prompt only. It is one more call, and nothing else.
\<close>

definition kendra_query :: "unit act" where
  "kendra_query w = (Inr (), next_tick w)"

section \<open>The six Lambda handlers\<close>

text \<open>
  Each handler is \<open>try: ... except Exception as e: logging.error(...); raise\<close>: the
  exception leaves the handler as it was raised, and what was written before it stays.
\<close>

definition audience_of :: "jv \<Rightarrow> jv act" where
  "audience_of brief_data =
     and_then (dict_get brief_data ''target_audience'' (JS [])) (\<lambda>a.
       if truthy a then ret a else dict_get brief_data ''target_segment'' (JS []))"

text \<open>
  The code of Agent0 is the raw string \<open>agent0_code\<close>, deployed after a single
  \<open>.replace("{claude_model}", ...)\<close>: it is no format string, so the doubled braces it
  is written with reach Python as they are. The line
  \<open>payload = {{ "inputText": prompt, "textGenerationConfig": {{"maxTokenCount": 500}} }}\<close>
  therefore builds a set that holds a dict, which raises TypeError. The handler gets that
  far whenever the brief could be read; \<open>invoke_model\<close>, \<open>put_item\<close> and the
  \<open>return\<close> below that line (the last two written with doubled braces as well) are
  never reached. The other five handlers are written with single braces.
\<close>

definition agent0 :: "services \<Rightarrow> jv \<Rightarrow> jv act" where
  "agent0 orc event =
     and_then (dict_get event ''brief_bucket'' JNull) (\<lambda>bucket.
     and_then (dict_get event ''brief_key'' JNull) (\<lambda>brief_key.
     and_then (if truthy bucket \<and> truthy brief_key then s3_get_brief orc
               else dict_get event ''brief'' (JO [])) (\<lambda>brief.
     and_then (dict_get brief ''campaign_id'' (JS ''UNKNOWN'')) (\<lambda>campaign_id.
     raise type_error))))"

definition agent1 :: "services \<Rightarrow> jv \<Rightarrow> jv act" where
  "agent1 orc event =
     and_then (dict_get event ''campaign_id'' JNull) (\<lambda>campaign_id.
     and_then (dynamodb_get_item orc campaign_id ''input_extracted'') (\<lambda>resp.
     and_then (audience_of (case resp of None \<Rightarrow> JO [] | Some d \<Rightarrow> d)) (\<lambda>audience.
     and_then (if truthy audience then kendra_query else ret ()) (\<lambda>_.
     and_then (invoke_model_text orc) (\<lambda>interpretation_text.
     and_then (dynamodb_put_item orc campaign_id ''business_context'' (JS interpretation_text)) (\<lambda>_.
     ret (JO [(''campaign_id'', campaign_id), (''interpretation'', JS interpretation_text)])))))))"

text \<open>\<open>audience.lower()\<close> is reached for a truthy audience only, and needs a string.\<close>

definition agent2 :: "services \<Rightarrow> jv \<Rightarrow> jv act" where
  "agent2 orc event =
     and_then (dict_get event ''campaign_id'' JNull) (\<lambda>campaign_id.
     and_then (dynamodb_get_item orc campaign_id ''business_context'') (\<lambda>interp_resp.
     and_then (dynamodb_get_item orc campaign_id ''input_extracted'') (\<lambda>brief_resp.
     and_then (audience_of (case brief_resp of None \<Rightarrow> JO [] | Some d \<Rightarrow> d)) (\<lambda>audience.
     and_then (case audience of JO (kv # kvs) \<Rightarrow> raise attribute_error | _ \<Rightarrow> ret ()) (\<lambda>_.
     and_then (invoke_model_text orc) (\<lambda>plan_text.
     and_then (dynamodb_put_item orc campaign_id ''campaign_plan'' (JS plan_text)) (\<lambda>_.
     ret (JO [(''campaign_id'', campaign_id), (''plan'', JS plan_text)]))))))))"

text \<open>
  Agent3 stores the content in DynamoDB first and in S3 second; \<open>.lower()\<close> is called on
  whatever \<open>target_audience\<close> holds.
\<close>

definition agent3 :: "services \<Rightarrow> jv \<Rightarrow> jv act" where
  "agent3 orc event =
     and_then (dict_get event ''campaign_id'' JNull) (\<lambda>campaign_id.
     and_then (dynamodb_get_item orc campaign_id ''campaign_plan'') (\<lambda>plan_resp.
     and_then (dynamodb_get_item orc campaign_id ''input_extracted'') (\<lambda>brief_resp.
     and_then (dict_get (case brief_resp of None \<Rightarrow> JO [] | Some d \<Rightarrow> d)
                 ''target_audience'' (JS [])) (\<lambda>audience.
     and_then (case audience of JS a \<Rightarrow> ret () | _ \<Rightarrow> raise attribute_error) (\<lambda>_.
     and_then (invoke_model_text orc) (\<lambda>content.
     and_then (dynamodb_put_item orc campaign_id ''content_samples'' (JS content)) (\<lambda>_.
     and_then (s3_put_object orc (py_str campaign_id @ ''_content.txt'') content) (\<lambda>_.
     ret (JO [(''campaign_id'', campaign_id), (''content'', JS content)])))))))))"

definition agent4 :: "services \<Rightarrow> jv \<Rightarrow> jv act" where
  "agent4 orc event =
     and_then (dict_get event ''campaign_id'' JNull) (\<lambda>campaign_id.
     and_then (dynamodb_get_item orc campaign_id ''campaign_plan'') (\<lambda>plan_resp.
     and_then (dynamodb_get_item orc campaign_id ''input_extracted'') (\<lambda>brief_resp.
     and_then (dict_get (case brief_resp of None \<Rightarrow> JO [] | Some d \<Rightarrow> d)
                 ''target_audience'' (JS [])) (\<lambda>audience.
     and_then (invoke_model_text orc) (\<lambda>strategy.
     and_then (dynamodb_put_item orc campaign_id ''channel_strategy'' (JS strategy)) (\<lambda>_.
     ret (JO [(''campaign_id'', campaign_id), (''strategy'', JS strategy)])))))))"

text \<open>
  Agent5 publishes its own notice at the end of the \<open>try\<close> block, and a failure notice
  in the \<open>except\<close> block before it re-raises. An exception raised while the failure
  notice is built or published replaces the one being handled; \<open>campaign_id\<close> is bound
  there once \<open>event.get\<close> has returned.
\<close>

definition agent5_try :: "services \<Rightarrow> jv \<Rightarrow> jv act" where
  "agent5_try orc event =
     and_then (dict_get event ''campaign_id'' JNull) (\<lambda>campaign_id.
     and_then (dynamodb_get_item orc campaign_id ''campaign_plan'') (\<lambda>plan.
     and_then (dynamodb_get_item orc campaign_id ''content_samples'') (\<lambda>content.
     and_then (dynamodb_get_item orc campaign_id ''channel_strategy'') (\<lambda>strategy.
     and_then (invoke_model_text orc) (\<lambda>evaluation.
     and_then (dynamodb_put_item orc campaign_id ''evaluation'' (JS evaluation)) (\<lambda>_.
     and_then (sns_publish orc
                 (''Campaign '' @ py_str campaign_id @ '' planning complete. Summary: ''
                    @ take 200 evaluation @ ''...'')
                 ''Campaign Plan Complete'') (\<lambda>_.
     ret (JO [(''campaign_id'', campaign_id), (''evaluation'', JS evaluation)]))))))))"

definition agent5_except :: "services \<Rightarrow> jv \<Rightarrow> exn \<Rightarrow> jv act" where
  "agent5_except orc event e =
     (case event of
        JO kvs \<Rightarrow>
          and_then (sns_publish orc
                      (''Campaign ''
                         @ py_str (case map_of kvs ''campaign_id'' of None \<Rightarrow> JNull | Some v \<Rightarrow> v)
                         @ '' failed at evaluation step: '' @ emsg e)
                      ''Campaign Plan Failed'') (\<lambda>_.
          raise e)
      | JNull \<Rightarrow> raise unbound_local
      | JS s \<Rightarrow> raise unbound_local)"

definition agent5 :: "services \<Rightarrow> jv \<Rightarrow> jv act" where
  "agent5 orc event w =
     (case agent5_try orc event w of
        (Inr r, w') \<Rightarrow> (Inr r, w')
      | (Inl e, w') \<Rightarrow> agent5_except orc event e w')"

definition agent_codes :: "(services \<Rightarrow> jv \<Rightarrow> jv act) list" where
  "agent_codes = [agent0, agent1, agent2, agent3, agent4, agent5]"

section \<open>The service integrations of the state machine\<close>

text \<open>
  A Lambda Task either fails in the Lambda service, before the handler runs (the errors
  the Retry block names), or runs the handler of \<open>CampaignAgent{i}\<close> on the payload; an
  exception of the handler is the Task's error, under the exception's class name. A
  handler cut off by the Lambda timeout (60 seconds) is not modelled, and the response
  of the publish integration is left empty.
\<close>

definition invoke_lambda :: "services \<Rightarrow> nat \<Rightarrow> jv \<Rightarrow> jv act" where
  "invoke_lambda orc i event w =
     (case lambda_fault orc (tick w) of
        Some e \<Rightarrow> (Inl e, next_tick w)
      | None \<Rightarrow>
          (if i < length agent_codes then (agent_codes ! i) orc event (next_tick w)
           else (Inl resource_not_found, next_tick w)))"

text \<open>The SDK integration \<open>aws-sdk:sns:publish\<close>, on the Task's \<open>Parameters\<close>.\<close>

definition sdk_sns_publish :: "services \<Rightarrow> jv \<Rightarrow> jv act" where
  "sdk_sns_publish orc params =
     and_then (sns_publish orc
        (case get_field params ''Message'' of Some v \<Rightarrow> render v | None \<Rightarrow> [])
        (case get_field params ''Subject'' of Some v \<Rightarrow> render v | None \<Rightarrow> [])) (\<lambda>_.
     ret (JO []))"

definition perform :: "services \<Rightarrow> resource \<Rightarrow> jv \<Rightarrow> jv act" where
  "perform orc res payload =
     (case res of
        Lambda i \<Rightarrow> invoke_lambda orc i payload
      | SnsPublish \<Rightarrow> sdk_sns_publish orc payload)"

text \<open>
  The deployed workflow: the six handlers behind the state machine of six agent states.
\<close>

definition run_workflow ::
  "services \<Rightarrow> wording \<Rightarrow> jv \<Rightarrow> world \<Rightarrow> (outcome \<times> event list \<times> world) option" where
  "run_workflow orc wd input w = start_execution (perform orc) num_agents wd input w"

text \<open>The input the notebook starts its execution with.\<close>

definition start_input :: "string \<Rightarrow> string \<Rightarrow> string \<Rightarrow> jv" where
  "start_input cid bucket key =
     JO [(''campaign_id'', JS cid), (''brief_bucket'', JS bucket), (''brief_key'', JS key)]"

section \<open>Reading a history\<close>

definition entered :: "event list \<Rightarrow> state_name list" where
  "entered tr = concat (map (\<lambda>ev. case ev of Entered s \<Rightarrow> [s] | _ \<Rightarrow> []) tr)"

text \<open>The indices of the agents invoked, in the order of the invocations.\<close>

definition lambda_calls :: "event list \<Rightarrow> nat list" where
  "lambda_calls tr =
     concat (map (\<lambda>ev. case ev of Called (Lambda i) p r \<Rightarrow> [i] | _ \<Rightarrow> []) tr)"

text \<open>The payloads of the publish Tasks of the state machine itself.\<close>

definition sns_tasks :: "event list \<Rightarrow> jv list" where
  "sns_tasks tr =
     concat (map (\<lambda>ev. case ev of Called SnsPublish p r \<Rightarrow> [p] | _ \<Rightarrow> []) tr)"

definition retries_of :: "state_name \<Rightarrow> event list \<Rightarrow> (exn \<times> real) list" where
  "retries_of s tr =
     concat (map (\<lambda>ev. case ev of Retrying s' e d \<Rightarrow> if s' = s then [(e, d)] else [] | _ \<Rightarrow> []) tr)"

definition is_notify :: "state_name \<Rightarrow> bool" where
  "is_notify s \<longleftrightarrow> s = NotifySuccess \<or> s = FailureNotify"

text \<open>The errors the Retry block of an agent state names.\<close>

definition retryable :: "exn \<Rightarrow> bool" where
  "retryable e \<longleftrightarrow> etype e \<in> set (r_ErrorEquals lambda_retry)"

definition result_of :: "state_name \<Rightarrow> exn + jv \<Rightarrow> outcome" where
  "result_of s r = (case r of Inr out \<Rightarrow> Completed s out | Inl e \<Rightarrow> Aborted e)"

text \<open>The payloads the three kinds of state send, once their \<open>Parameters\<close> are evaluated.\<close>

definition agent_payload :: "jv \<Rightarrow> jv" where
  "agent_payload cid = JO [(''campaign_id'', cid)]"

definition success_payload :: "wording \<Rightarrow> jv \<Rightarrow> jv" where
  "success_payload wd cid =
     JO [(''TopicArn'', JS (topic_arn wd)),
         (''Message'', JS (format_str (success_template wd) [render cid])),
         (''Subject'', JS (success_subject wd))]"

definition failure_payload :: "wording \<Rightarrow> jv \<Rightarrow> exn \<Rightarrow> jv" where
  "failure_payload wd cid e =
     JO [(''TopicArn'', JS (topic_arn wd)),
         (''Message'', JS (format_str (failure_template wd) [render cid, etype e])),
         (''Subject'', JS (failure_subject wd))]"

text \<open>The step name each handler writes its record under.\<close>

definition step_names :: "string list" where
  "step_names = [''input_extracted'', ''business_context'', ''campaign_plan'',
                 ''content_samples'', ''channel_strategy'', ''evaluation'']"

definition records_of :: "item list \<Rightarrow> string \<times> string \<Rightarrow> item list" where
  "records_of tbl k = filter (\<lambda>it. item_key it = k) tbl"

definition other_records :: "item list \<Rightarrow> string \<times> string \<Rightarrow> item list" where
  "other_records tbl k = filter (\<lambda>it. item_key it \<noteq> k) tbl"

text \<open>Accessors of a finished run.\<close>

definition history :: "(outcome \<times> event list \<times> 'w) option \<Rightarrow> event list" where
  "history run = (case run of None \<Rightarrow> [] | Some (oc, tr, w) \<Rightarrow> tr)"

definition ending :: "(outcome \<times> event list \<times> 'w) option \<Rightarrow> outcome option" where
  "ending run = (case run of None \<Rightarrow> None | Some (oc, tr, w) \<Rightarrow> Some oc)"

definition published :: "(outcome \<times> event list \<times> world) option \<Rightarrow> (string \<times> string) list" where
  "published run = (case run of None \<Rightarrow> [] | Some (oc, tr, w) \<Rightarrow> sns_calls w)"

definition stored :: "(outcome \<times> event list \<times> world) option \<Rightarrow> item list" where
  "stored run = (case run of None \<Rightarrow> [] | Some (oc, tr, w) \<Rightarrow> table w)"

text \<open>What the invocations of agent \<open>i\<close> gave back, in order.\<close>

definition calls_to :: "nat \<Rightarrow> event list \<Rightarrow> (exn + jv) list" where
  "calls_to i tr =
     concat (map (\<lambda>ev. case ev of Called (Lambda j) p r \<Rightarrow> if j = i then [r] else []
                              | _ \<Rightarrow> []) tr)"

text \<open>
  The entity id the code of a handler files its record under when the state machine
  invokes it with the id \<open>c\<close>: that of Agent0 takes it from the brief, which the payload
  does not carry (its \<open>put_item\<close> is never reached, though), and the others from the
  payload.
\<close>

definition record_owner :: "nat \<Rightarrow> string \<Rightarrow> string" where
  "record_owner j c = (if j = 0 then ''UNKNOWN'' else c)"

text \<open>The table after is the table before, up to one \<open>put_item\<close> under the given key.\<close>

definition touches :: "world \<Rightarrow> world \<Rightarrow> string \<Rightarrow> string \<Rightarrow> bool" where
  "touches v v' c s \<longleftrightarrow> table v' = table v \<or> (\<exists>d. table v' = store_item (table v) c s d)"

text \<open>Services that never raise (whatever the model generates).\<close>

definition fault_free :: "services \<Rightarrow> bool" where
  "fault_free orc \<longleftrightarrow>
     (\<forall>k. lambda_fault orc k = None) \<and> (\<forall>k. dynamo_fault orc k = None) \<and>
     (\<forall>k. \<exists>t. bedrock_text orc k = Inr t) \<and>
     (\<forall>k. s3_put_fault orc k = None) \<and> (\<forall>k. sns_fault orc k = None)"

text \<open>
  The extracted brief of \<open>c\<close>, if the table has one, is a dict whose \<open>target_audience\<close>,
  if it has one, is a string: what Agent3's \<open>.lower()\<close> needs.
\<close>

definition audience_is_text :: "item list \<Rightarrow> string \<Rightarrow> bool" where
  "audience_is_text tbl c =
     (case lookup_item tbl c ''input_extracted'' of
        None \<Rightarrow> True
      | Some d \<Rightarrow>
          (case d of
             JO kvs \<Rightarrow> (case map_of kvs ''target_audience'' of
                          None \<Rightarrow> True
                        | Some a \<Rightarrow> (case a of JS s \<Rightarrow> True | JNull \<Rightarrow> False | JO x \<Rightarrow> False))
           | JNull \<Rightarrow> False
           | JS s \<Rightarrow> False))"

text \<open>
  The extracted brief of \<open>c\<close>, if the table has one, is a dict whose
  \<open>target_audience\<close> and \<open>target_segment\<close>, where it has them, are strings: what the
  \<open>.lower()\<close> of Agent2 and Agent3 needs.
\<close>

definition text_or_absent :: "jv option \<Rightarrow> bool" where
  "text_or_absent x =
     (case x of None \<Rightarrow> True | Some v \<Rightarrow> (case v of JS s \<Rightarrow> True | JNull \<Rightarrow> False | JO kvs \<Rightarrow> False))"

definition brief_is_plain :: "item list \<Rightarrow> string \<Rightarrow> bool" where
  "brief_is_plain tbl c =
     (case lookup_item tbl c ''input_extracted'' of
        None \<Rightarrow> True
      | Some d \<Rightarrow>
          (case d of
             JO kvs \<Rightarrow> text_or_absent (map_of kvs ''target_audience'') \<and>
                       text_or_absent (map_of kvs ''target_segment'')
           | JNull \<Rightarrow> False
           | JS s \<Rightarrow> False))"

text \<open>\<open>sub in s\<close> for strings.\<close>

fun contains :: "string \<Rightarrow> string \<Rightarrow> bool" where
  "contains [] sub = (sub = [])"
| "contains (c # cs) sub = (take (length sub) (c # cs) = sub \<or> contains cs sub)"

section \<open>Concrete services and runs\<close>

definition empty_world :: world where
  "empty_world = \<lparr>table = [], assets = [], sns_calls = [], tick = 0\<rparr>"

text \<open>Services that never fail; the model answers with a fixed text.\<close>

definition quiet_services :: services where
  "quiet_services =
     \<lparr>lambda_fault = (\<lambda>k. None),
      s3_brief = (\<lambda>k. Inr (JO [(''campaign_id'', JS ''X'')])),
      bedrock_text = (\<lambda>k. Inr ''generated text''),
      dynamo_fault = (\<lambda>k. None),
      s3_put_fault = (\<lambda>k. None),
      sns_fault = (\<lambda>k. None)\<rparr>"

definition service_exception :: exn where
  "service_exception = \<lparr>etype = ''Lambda.ServiceException'', emsg = ''Service unavailable''\<rparr>"

definition client_error :: exn where
  "client_error = \<lparr>etype = ''ClientError'', emsg = ''The model rejected the prompt''\<rparr>"

text \<open>The Lambda service fails on the calls the predicate selects.\<close>

definition lambda_failing :: "(nat \<Rightarrow> bool) \<Rightarrow> services" where
  "lambda_failing sel =
     quiet_services\<lparr>lambda_fault := (\<lambda>k. if sel k then Some service_exception else None)\<rparr>"

definition sns_failing :: "(nat \<Rightarrow> bool) \<Rightarrow> services" where
  "sns_failing sel =
     quiet_services\<lparr>sns_fault := (\<lambda>k. if sel k then Some client_error else None)\<rparr>"

definition model_failing :: "(nat \<Rightarrow> bool) \<Rightarrow> services" where
  "model_failing sel =
     quiet_services\<lparr>bedrock_text := (\<lambda>k. if sel k then Inl client_error else Inr ''generated text'')\<rparr>"

definition test_input :: jv where
  "test_input = start_input ''X'' ''briefs'' ''brief.json''"

definition test_run :: "services \<Rightarrow> (outcome \<times> event list \<times> world) option" where
  "test_run orc = run_workflow orc (readme_wording ''arn:topic'') test_input empty_world"

text \<open>
  Nothing fails in the services. Call 0 is the invocation of Agent0, which makes no
  call of its own when it is given no brief location; call 1 is the publish of
  FailureNotify.
\<close>

definition quiet_run :: "(outcome \<times> event list \<times> world) option" where
  "quiet_run = test_run quiet_services"

text \<open>The Lambda service fails on every call.\<close>

definition dead_lambda :: services where
  "dead_lambda = lambda_failing (\<lambda>k. True)"

definition dead_lambda_run :: "(outcome \<times> event list \<times> world) option" where
  "dead_lambda_run = test_run dead_lambda"

text \<open>The publish of FailureNotify (call 1) fails.\<close>

definition notify_failure_run :: "(outcome \<times> event list \<times> world) option" where
  "notify_failure_run = test_run (sns_failing (\<lambda>k. k = 1))"


text \<open>
  A machine of five agent states over the handlers of Agent1 to Agent5: agent \<open>i\<close> of
  the machine is \<open>CampaignAgent{i+1}\<close>. In \<open>five_agent_run\<close> the Lambda service fails
  once, on the first invocation (call 0).
\<close>

definition later_agents :: "services \<Rightarrow> resource \<Rightarrow> jv \<Rightarrow> jv act" where
  "later_agents orc res payload =
     (case res of
        Lambda i \<Rightarrow> invoke_lambda orc (Suc i) payload
      | SnsPublish \<Rightarrow> sdk_sns_publish orc payload)"

definition five_agent_run :: "(outcome \<times> event list \<times> world) option" where
  "five_agent_run =
     start_execution (later_agents (lambda_failing (\<lambda>k. k = 0))) 5 (readme_wording ''arn:topic'')
       (agent_payload (JS ''X'')) empty_world"

text \<open>Agent1 invoked for an entity the table has no record of.\<close>

definition orphan_call :: "(exn + jv) \<times> world" where
  "orphan_call = agent1 quiet_services (agent_payload (JS ''X'')) empty_world"

text \<open>The write to S3 fails on call 5 only; a retrier that retries every error.\<close>

definition s3_failing_once :: services where
  "s3_failing_once =
     quiet_services\<lparr>s3_put_fault := (\<lambda>k. if k = 5 then Some client_error else None)\<rparr>"

definition retry_all :: retrier where
  "retry_all = \<lparr>r_ErrorEquals = [''States.ALL''], IntervalSeconds = 2, MaxAttempts = 3,
                BackoffRate = 2\<rparr>"

definition content_retried :: "(exn + jv) \<times> event list \<times> world" where
  "content_retried =
     attempt (perform s3_failing_once) (AgentStep 3) (Lambda 3) (agent_payload (JS ''X''))
       [(retry_all, 0)] [] empty_world"

text \<open>
  The table as the five agents before the evaluator leave it for \<open>X\<close>, and the state
  machine entering Agent5Step on it. Call 0 is the invocation, calls 1 to 3 are the
  reads, call 4 is the model, call 5 the put, call 6 Agent5's own publish. In
  \<open>evaluator_publish_failure\<close> that publish fails, in \<open>evaluator_rejected\<close> the model
  call does.
\<close>

definition five_steps_done :: world where
  "five_steps_done =
     \<lparr>table = [(''X'', ''input_extracted'', JO [(''target_audience'', JS ''Gen-Z'')]),
               (''X'', ''business_context'', JS ''generated text''),
               (''X'', ''campaign_plan'', JS ''generated text''),
               (''X'', ''content_samples'', JS ''generated text''),
               (''X'', ''channel_strategy'', JS ''generated text'')],
      assets = [(''X_content.txt'', ''generated text'')], sns_calls = [], tick = 0\<rparr>"


definition evaluator_rejected :: "(outcome \<times> event list \<times> world) option" where
  "evaluator_rejected =
     exec (perform (model_failing (\<lambda>k. k = 4))) (states 6 (readme_wording ''arn:topic'')) 2
       (AgentStep 5) (agent_payload (JS ''X'')) [] five_steps_done"
section \<open>The engine: unfolding and proof rules\<close>

lemma pick_retrier_match:
  "pick_retrier e rs = Some (rs', d) \<Longrightarrow>
     map fst rs' = map fst rs \<and> (\<exists>rt \<in> set (map fst rs). matches (r_ErrorEquals rt) e)"
proof (induction rs arbitrary: rs' d)
  case Nil
  then show ?case by simp
next
  case (Cons rc rs)
  obtain r c where rc: "rc = (r, c)" by (cases rc)
  show ?case
  proof (cases "matches (r_ErrorEquals r) e")
    case True
    with Cons.prems rc show ?thesis by (auto split: if_splits)
  next
    case False
    with Cons.prems rc obtain rs0 where
      p: "pick_retrier e rs = Some (rs0, d)" and r': "rs' = (r, c) # rs0"
      by (auto split: option.splits)
    from Cons.IH [OF p] r' rc show ?thesis by auto
  qed
qed

text \<open>
  A rule for the retry loop: \<open>M\<close> holds whenever the resource is about to be called,
  \<open>G\<close> of what the loop gives back.
\<close>

lemma attempt_rule:
  assumes run: "attempt io name res payload rs tr w = (r, tr', w')"
    and rs: "set (map fst rs) \<subseteq> R"
    and start: "M tr w"
    and ok: "\<And>t v out v'. M t v \<Longrightarrow> io res payload v = (Inr out, v') \<Longrightarrow>
               G (Inr out) (t @ [Called res payload (Inr out)]) v'"
    and err: "\<And>t v e v'. M t v \<Longrightarrow> io res payload v = (Inl e, v') \<Longrightarrow>
               G (Inl e) (t @ [Called res payload (Inl e)]) v'"
    and again: "\<And>t v e v' dl. M t v \<Longrightarrow> io res payload v = (Inl e, v') \<Longrightarrow>
               \<exists>rt \<in> R. matches (r_ErrorEquals rt) e \<Longrightarrow>
               M (t @ [Called res payload (Inl e), Retrying name e dl]) v'"
  shows "G r tr' w'"
  using assms
proof (induction io name res payload rs tr w arbitrary: r tr' w' rule: attempt.induct)
  case (1 io name res payload rs tr w)
  note run = "1.prems"(1) and rs = "1.prems"(2) and start = "1.prems"(3)
    and ok = "1.prems"(4) and err = "1.prems"(5) and again = "1.prems"(6)
  obtain x w1 where pfeq: "io res payload w = (x, w1)" by (cases "io res payload w")
  show ?case
  proof (cases x)
    case (Inr out)
    with pfeq have c: "io res payload w = (Inr out, w1)" by simp
    with run have "r = Inr out" "tr' = tr @ [Called res payload (Inr out)]" "w' = w1"
      by (auto simp: attempt.simps)
    with ok [OF start c] show ?thesis by simp
  next
    case (Inl e)
    with pfeq have c: "io res payload w = (Inl e, w1)" by simp
    show ?thesis
    proof (cases "pick_retrier e rs")
      case None
      with c run have "r = Inl e" "tr' = tr @ [Called res payload (Inl e)]" "w' = w1"
        by (auto simp: attempt.simps)
      with err [OF start c] show ?thesis by simp
    next
      case (Some a)
      obtain rs' d where a: "a = (rs', d)" by (cases a)
      from c Some a run have rec:
        "attempt io name res payload rs' (tr @ [Called res payload (Inl e), Retrying name e d]) w1
           = (r, tr', w')"
        by (simp add: attempt.simps)
      from Some a have m: "map fst rs' = map fst rs"
        and me: "\<exists>rt \<in> set (map fst rs). matches (r_ErrorEquals rt) e"
        using pick_retrier_match by blast+
      from me rs have me': "\<exists>rt \<in> R. matches (r_ErrorEquals rt) e" by blast
      from m rs have sub: "set (map fst rs') \<subseteq> R" by simp
      from again [OF start c me']
      have M': "M (tr @ [Called res payload (Inl e), Retrying name e d]) w1" .
      show ?thesis
      proof (rule "1.IH" [OF pfeq [symmetric] Inl Some a [symmetric] rec sub M'])
        show "G (Inr out) (t @ [Called res payload (Inr out)]) v'"
          if "M t v" "io res payload v = (Inr out, v')" for t v out v'
          using that by (rule ok)
        show "G (Inl e) (t @ [Called res payload (Inl e)]) v'"
          if "M t v" "io res payload v = (Inl e, v')" for t v e v'
          using that by (rule err)
        show "M (t @ [Called res payload (Inl e), Retrying name e dl]) v'"
          if "M t v" "io res payload v = (Inl e, v')" "\<exists>rt \<in> R. matches (r_ErrorEquals rt) e"
          for t v e v' dl
          using that by (rule again)
      qed
    qed
  qed
qed

lemma map_of_drop_key:
  "k' \<noteq> k \<Longrightarrow> map_of (filter (\<lambda>kv. fst kv \<noteq> k) kvs) k' = map_of kvs k'"
  by (induction kvs) auto

lemma get_field_object:
  "get_field d k = Some v \<Longrightarrow> \<exists>kvs. d = JO kvs \<and> map_of kvs k = Some v"
  by (cases d) auto

lemma retryable_matches: "matches (r_ErrorEquals lambda_retry) e \<longleftrightarrow> retryable e"
  by (simp add: matches_def lambda_retry_def retryable_def)

lemma failure_data:
  assumes "get_field d ''campaign_id'' = Some cid"
  shows "\<exists>d'. set_path [''error''] (error_obj e) d = Some d' \<and>
           get_field d' ''campaign_id'' = Some cid \<and>
           get_field d' ''error'' = Some (error_obj e)"
proof -
  from get_field_object [OF assms] obtain kvs where
    d: "d = JO kvs" and m: "map_of kvs ''campaign_id'' = Some cid" by blast
  have "map_of (filter (\<lambda>kv. fst kv \<noteq> ''error'') kvs) ''campaign_id'' = Some cid"
    using m by (simp add: map_of_drop_key)
  with d show ?thesis by simp
qed

text \<open>The retry loop, one invocation at a time.\<close>

lemma attempt_ok:
  "io res payload w = (Inr out, w1) \<Longrightarrow>
   attempt io name res payload rs tr w = (Inr out, tr @ [Called res payload (Inr out)], w1)"
  by (simp add: attempt.simps)

lemma attempt_stop:
  "io res payload w = (Inl e, w1) \<Longrightarrow> pick_retrier e rs = None \<Longrightarrow>
   attempt io name res payload rs tr w = (Inl e, tr @ [Called res payload (Inl e)], w1)"
  by (simp add: attempt.simps)

lemma attempt_retry:
  "io res payload w = (Inl e, w1) \<Longrightarrow> pick_retrier e rs = Some (rs', d) \<Longrightarrow>
   attempt io name res payload rs tr w =
     attempt io name res payload rs' (tr @ [Called res payload (Inl e), Retrying name e d]) w1"
  by (simp add: attempt.simps)

lemma pick_lambda_retry:
  "retryable e \<Longrightarrow>
   pick_retrier e [(lambda_retry, c)] =
     (if c < 3 then Some ([(lambda_retry, Suc c)], 2 * 2 ^ c) else None)"
  by (simp add: retryable_matches) (simp add: lambda_retry_def)

lemma pick_lambda_retry_steps:
  assumes "retryable e"
  shows "pick_retrier e [(lambda_retry, 0)] = Some ([(lambda_retry, Suc 0)], 2)"
    and "pick_retrier e [(lambda_retry, Suc 0)] = Some ([(lambda_retry, Suc (Suc 0))], 4)"
    and "pick_retrier e [(lambda_retry, Suc (Suc 0))]
           = Some ([(lambda_retry, Suc (Suc (Suc 0)))], 8)"
    and "pick_retrier e [(lambda_retry, Suc (Suc (Suc 0)))] = None"
  using assms by (simp_all add: retryable_matches) (simp_all add: lambda_retry_def)


text \<open>What one step of the interpreter does in each of the three kinds of state.\<close>

lemma exec_agent_step:
  assumes "i < n"
  shows "exec io (states n wd) (Suc fuel) (AgentStep i) data tr w =
     (case get_field data ''campaign_id'' of
        None \<Rightarrow> Some (Aborted (runtime_error ''path not found''), tr @ [Entered (AgentStep i)], w)
      | Some cid \<Rightarrow>
          (case attempt io (AgentStep i) (Lambda i) (agent_payload cid) [(lambda_retry, 0)]
                  (tr @ [Entered (AgentStep i)]) w of
             (Inr out, tr', w') \<Rightarrow>
               exec io (states n wd) fuel (if i < n - 1 then AgentStep (i + 1) else NotifySuccess)
                 out tr' w'
           | (Inl e, tr', w') \<Rightarrow>
               (case set_path [''error''] (error_obj e) data of
                  None \<Rightarrow> Some (Aborted (runtime_error ''result path''), tr', w')
                | Some data' \<Rightarrow> exec io (states n wd) fuel FailureNotify data' tr' w')))"
  using assms
  by (simp add: states_def agent_state_def catch_all_def matches_def agent_payload_def
           split: option.splits sum.splits prod.splits)

lemma exec_notify_success:
  "exec io (states n wd) (Suc fuel) NotifySuccess data tr w =
     (case get_field data ''campaign_id'' of
        None \<Rightarrow> Some (Aborted (runtime_error ''path not found''), tr @ [Entered NotifySuccess], w)
      | Some cid \<Rightarrow>
          (case io SnsPublish (success_payload wd cid) w of
             (r, w') \<Rightarrow>
               Some (result_of NotifySuccess r,
                     tr @ [Entered NotifySuccess, Called SnsPublish (success_payload wd cid) r], w')))"
  by (simp add: states_def notify_success_def success_payload_def result_of_def attempt.simps
           split: option.splits sum.splits prod.splits)

lemma exec_failure_notify:
  assumes "get_field data ''campaign_id'' = Some cid"
    and "get_field data ''error'' = Some (error_obj e)"
  shows "exec io (states n wd) (Suc fuel) FailureNotify data tr w =
     (case io SnsPublish (failure_payload wd cid e) w of
        (r, w') \<Rightarrow>
          Some (result_of FailureNotify r,
                tr @ [Entered FailureNotify, Called SnsPublish (failure_payload wd cid e) r], w'))"
  using assms
  by (simp add: states_def failure_notify_def failure_payload_def result_of_def attempt.simps
           error_obj_def split: option.splits sum.splits prod.splits)

lemma exec_no_fuel [simp]: "exec io sts 0 name data tr w = None"
  by simp

declare exec.simps [simp del]

text \<open>
  A rule for whole runs of the notebook's machine. \<open>Inv j\<close> holds when state \<open>j\<close> is
  about to be entered (\<open>j = n\<close>: NotifySuccess), \<open>Mid j\<close> whenever agent \<open>j\<close> is about
  to be invoked, \<open>Fail j\<close> when agent \<open>j\<close> has failed for good, \<open>Post\<close> of the finished
  run.
\<close>

lemma exec_rule:
  assumes run: "exec io (states n wd) fuel (AgentStep i) data tr w = Some (oc, tr', w')"
    and i: "i < n"
    and start: "Inv i data tr w"
    and enter: "\<And>j d t v. j < n \<Longrightarrow> Inv j d t v \<Longrightarrow> Mid j d (t @ [Entered (AgentStep j)]) v"
    and ok: "\<And>j d t v cid out v'. j < n \<Longrightarrow> Mid j d t v \<Longrightarrow>
          get_field d ''campaign_id'' = Some cid \<Longrightarrow>
          io (Lambda j) (agent_payload cid) v = (Inr out, v') \<Longrightarrow>
          Inv (Suc j) out (t @ [Called (Lambda j) (agent_payload cid) (Inr out)]) v'"
    and err: "\<And>j d t v cid e v'. j < n \<Longrightarrow> Mid j d t v \<Longrightarrow>
          get_field d ''campaign_id'' = Some cid \<Longrightarrow>
          io (Lambda j) (agent_payload cid) v = (Inl e, v') \<Longrightarrow>
          Fail j d e (t @ [Called (Lambda j) (agent_payload cid) (Inl e)]) v'"
    and again: "\<And>j d t v cid e v' dl. j < n \<Longrightarrow> Mid j d t v \<Longrightarrow>
          get_field d ''campaign_id'' = Some cid \<Longrightarrow>
          io (Lambda j) (agent_payload cid) v = (Inl e, v') \<Longrightarrow>
          retryable e \<Longrightarrow>
          Mid j d (t @ [Called (Lambda j) (agent_payload cid) (Inl e),
                        Retrying (AgentStep j) e dl]) v'"
    and success: "\<And>d t v cid r v'. Inv n d t v \<Longrightarrow>
          get_field d ''campaign_id'' = Some cid \<Longrightarrow>
          io SnsPublish (success_payload wd cid) v = (r, v') \<Longrightarrow>
          Post (result_of NotifySuccess r)
            (t @ [Entered NotifySuccess, Called SnsPublish (success_payload wd cid) r]) v'"
    and failure: "\<And>j d e t v cid r v'. j < n \<Longrightarrow> Fail j d e t v \<Longrightarrow>
          get_field d ''campaign_id'' = Some cid \<Longrightarrow>
          io SnsPublish (failure_payload wd cid e) v = (r, v') \<Longrightarrow>
          Post (result_of FailureNotify r)
            (t @ [Entered FailureNotify, Called SnsPublish (failure_payload wd cid e) r]) v'"
    and abort: "\<And>j d t v. j \<le> n \<Longrightarrow> Inv j d t v \<Longrightarrow>
          get_field d ''campaign_id'' = None \<Longrightarrow>
          Post (Aborted (runtime_error ''path not found''))
            (t @ [Entered (if j < n then AgentStep j else NotifySuccess)]) v"
  shows "Post oc tr' w'"
  using run i start
proof (induction fuel arbitrary: i data tr w)
  case 0
  then show ?case by simp
next
  case (Suc fuel)
  note run = Suc.prems(1) and i = Suc.prems(2) and inv = Suc.prems(3)
  show ?case
  proof (cases "get_field data ''campaign_id''")
    case None
    with run i have "oc = Aborted (runtime_error ''path not found'')"
      "tr' = tr @ [Entered (AgentStep i)]" "w' = w"
      by (simp_all add: exec_agent_step)
    with abort [OF _ inv None] i show ?thesis by simp
  next
    case (Some cid)
    obtain r tr1 w1 where att:
      "attempt io (AgentStep i) (Lambda i) (agent_payload cid) [(lambda_retry, 0)]
         (tr @ [Entered (AgentStep i)]) w = (r, tr1, w1)"
      by (metis prod_cases3)
    have G: "case r of Inr out \<Rightarrow> Inv (Suc i) out tr1 w1 | Inl e \<Rightarrow> Fail i data e tr1 w1"
    proof (rule attempt_rule [OF att, where R = "{lambda_retry}" and M = "Mid i data"])
      show "set (map fst [(lambda_retry, 0::nat)]) \<subseteq> {lambda_retry}" by simp
      show "Mid i data (tr @ [Entered (AgentStep i)]) w" by (rule enter [OF i inv])
      show "case Inr out of
              Inr out' \<Rightarrow> Inv (Suc i) out' (t @ [Called (Lambda i) (agent_payload cid) (Inr out)]) v'
            | Inl e \<Rightarrow> Fail i data e (t @ [Called (Lambda i) (agent_payload cid) (Inr out)]) v'"
        if "Mid i data t v" "io (Lambda i) (agent_payload cid) v = (Inr out, v')" for t v out v'
        using ok [OF i that(1) Some that(2)] by simp
      show "case Inl e of
              Inr out \<Rightarrow> Inv (Suc i) out (t @ [Called (Lambda i) (agent_payload cid) (Inl e)]) v'
            | Inl e' \<Rightarrow> Fail i data e' (t @ [Called (Lambda i) (agent_payload cid) (Inl e)]) v'"
        if "Mid i data t v" "io (Lambda i) (agent_payload cid) v = (Inl e, v')" for t v e v'
        using err [OF i that(1) Some that(2)] by simp
      show "Mid i data (t @ [Called (Lambda i) (agent_payload cid) (Inl e),
                             Retrying (AgentStep i) e dl]) v'"
        if "Mid i data t v" "io (Lambda i) (agent_payload cid) v = (Inl e, v')"
          "\<exists>rt \<in> {lambda_retry}. matches (r_ErrorEquals rt) e" for t v e v' dl
        using again [OF i that(1) Some that(2)] that(3) by (simp add: retryable_matches)
    qed
    show ?thesis
    proof (cases r)
      case (Inr out)
      with G have inv': "Inv (Suc i) out tr1 w1" by simp
      show ?thesis
      proof (cases "i < n - 1")
        case True
        with run i Some att Inr have
          "exec io (states n wd) fuel (AgentStep (Suc i)) out tr1 w1 = Some (oc, tr', w')"
          by (simp add: exec_agent_step)
        moreover from True have "Suc i < n" by simp
        ultimately show ?thesis using inv' by (rule Suc.IH)
      next
        case False
        with i have n: "Suc i = n" by simp
        from False run i Some att Inr have fin:
          "exec io (states n wd) fuel NotifySuccess out tr1 w1 = Some (oc, tr', w')"
          by (simp add: exec_agent_step)
        then obtain fuel' where f: "fuel = Suc fuel'" by (cases fuel) simp_all
        show ?thesis
        proof (cases "get_field out ''campaign_id''")
          case None
          with fin f have "oc = Aborted (runtime_error ''path not found'')"
            "tr' = tr1 @ [Entered NotifySuccess]" "w' = w1"
            by (simp_all add: exec_notify_success)
          with abort [of n out tr1 w1] inv' n None show ?thesis by simp
        next
          case (Some c2)
          obtain r2 w2 where p: "io SnsPublish (success_payload wd c2) w1 = (r2, w2)"
            by (cases "io SnsPublish (success_payload wd c2) w1")
          with fin f Some have "oc = result_of NotifySuccess r2"
            "tr' = tr1 @ [Entered NotifySuccess, Called SnsPublish (success_payload wd c2) r2]"
            "w' = w2"
            by (simp_all add: exec_notify_success)
          with success [of out tr1 w1 c2 r2 w2] inv' n Some p show ?thesis by simp
        qed
      qed
    next
      case (Inl e)
      with G have fl: "Fail i data e tr1 w1" by simp
      from failure_data [OF Some, of e] obtain d' where
        sp: "set_path [''error''] (error_obj e) data = Some d'" and
        l1: "get_field d' ''campaign_id'' = Some cid" and
        l2: "get_field d' ''error'' = Some (error_obj e)" by blast
      from run i Some att Inl sp have fin:
        "exec io (states n wd) fuel FailureNotify d' tr1 w1 = Some (oc, tr', w')"
        by (simp add: exec_agent_step)
      then obtain fuel' where f: "fuel = Suc fuel'" by (cases fuel) simp_all
      obtain r2 w2 where p: "io SnsPublish (failure_payload wd cid e) w1 = (r2, w2)"
        by (cases "io SnsPublish (failure_payload wd cid e) w1")
      with fin f have "oc = result_of FailureNotify r2"
        "tr' = tr1 @ [Entered FailureNotify, Called SnsPublish (failure_payload wd cid e) r2]"
        "w' = w2"
        by (simp_all add: exec_failure_notify [OF l1 l2])
      with failure [OF i fl Some p] show ?thesis by simp
    qed
  qed
qed



section \<open>Reading a history: the history grows by appending\<close>

lemma entered_simps [simp]:
  "entered [] = []"
  "entered (Entered s # t) = s # entered t"
  "entered (Called res p r # t) = entered t"
  "entered (Retrying s e d # t) = entered t"
  "entered (t @ u) = entered t @ entered u"
  by (simp_all add: entered_def)

lemma lambda_calls_simps [simp]:
  "lambda_calls [] = []"
  "lambda_calls (Entered s # t) = lambda_calls t"
  "lambda_calls (Called (Lambda i) p r # t) = i # lambda_calls t"
  "lambda_calls (Called SnsPublish p r # t) = lambda_calls t"
  "lambda_calls (Retrying s e d # t) = lambda_calls t"
  "lambda_calls (t @ u) = lambda_calls t @ lambda_calls u"
  by (simp_all add: lambda_calls_def)

lemma sns_tasks_simps [simp]:
  "sns_tasks [] = []"
  "sns_tasks (Entered s # t) = sns_tasks t"
  "sns_tasks (Called (Lambda i) p r # t) = sns_tasks t"
  "sns_tasks (Called SnsPublish p r # t) = p # sns_tasks t"
  "sns_tasks (Retrying s e d # t) = sns_tasks t"
  "sns_tasks (t @ u) = sns_tasks t @ sns_tasks u"
  by (simp_all add: sns_tasks_def)

lemma retries_of_simps [simp]:
  "retries_of s [] = []"
  "retries_of s (Entered s' # t) = retries_of s t"
  "retries_of s (Called res p r # t) = retries_of s t"
  "retries_of s (Retrying s' e d # t) = (if s' = s then (e, d) # retries_of s t else retries_of s t)"
  "retries_of s (t @ u) = retries_of s t @ retries_of s u"
  by (simp_all add: retries_of_def)

lemma result_of_simps [simp]:
  "result_of s (Inr out) = Completed s out"
  "result_of s (Inl e) = Aborted e"
  by (simp_all add: result_of_def)

lemma result_of_completed:
  "result_of s r = Completed s' out \<longleftrightarrow> s = s' \<and> r = Inr out"
  by (cases r) auto

section \<open>The handlers: what an invocation returns and writes\<close>

lemmas handler_prims = and_then_def ret_def raise_def dict_get_def dynamodb_get_item_def
  dynamodb_put_item_def s3_get_brief_def s3_put_object_def invoke_model_text_def
  sns_publish_def kendra_query_def next_tick_def audience_of_def Let_def

text \<open>Agent0 never returns, and writes and publishes nothing, whatever it is invoked with.\<close>

lemma agent0_raises:
  "agent0 orc event v = (r, v') \<Longrightarrow>
   (\<exists>e. r = Inl e) \<and> table v' = table v \<and> assets v' = assets v \<and> sns_calls v' = sns_calls v"
  by (cases "s3_brief orc (tick v)")
     (auto simp: agent0_def handler_prims
           split: prod.splits sum.splits option.splits if_splits jv.splits)

lemma agent0_effect:
  "agent0 orc (agent_payload (JS c)) v = (r, v') \<Longrightarrow>
   (\<forall>out. r = Inr out \<longrightarrow> (\<exists>x. out = JO [(''campaign_id'', JS ''UNKNOWN''), x]) \<and>
        (\<exists>d. table v' = store_item (table v) ''UNKNOWN'' ''input_extracted'' d)) \<and>
   touches v v' ''UNKNOWN'' ''input_extracted''"
  using agent0_raises [of orc "agent_payload (JS c)" v r v'] by (auto simp: touches_def)

lemma agent1_effect:
  "agent1 orc (agent_payload (JS c)) v = (r, v') \<Longrightarrow>
   (\<forall>out. r = Inr out \<longrightarrow> (\<exists>x. out = JO [(''campaign_id'', JS c), x]) \<and>
        (\<exists>d. table v' = store_item (table v) c ''business_context'' d)) \<and>
   touches v v' c ''business_context''"
  by (auto simp: agent1_def agent_payload_def handler_prims touches_def
           split: prod.splits sum.splits option.splits if_splits jv.splits)

lemma agent2_effect:
  "agent2 orc (agent_payload (JS c)) v = (r, v') \<Longrightarrow>
   (\<forall>out. r = Inr out \<longrightarrow> (\<exists>x. out = JO [(''campaign_id'', JS c), x]) \<and>
        (\<exists>d. table v' = store_item (table v) c ''campaign_plan'' d)) \<and>
   touches v v' c ''campaign_plan''"
  by (auto simp: agent2_def agent_payload_def handler_prims touches_def
           split: prod.splits sum.splits option.splits if_splits jv.splits list.splits)

lemma agent3_effect:
  "agent3 orc (agent_payload (JS c)) v = (r, v') \<Longrightarrow>
   (\<forall>out. r = Inr out \<longrightarrow> (\<exists>x. out = JO [(''campaign_id'', JS c), x]) \<and>
        (\<exists>d. table v' = store_item (table v) c ''content_samples'' d)) \<and>
   touches v v' c ''content_samples''"
  by (auto simp: agent3_def agent_payload_def handler_prims touches_def
           split: prod.splits sum.splits option.splits if_splits jv.splits)

lemma agent4_effect:
  "agent4 orc (agent_payload (JS c)) v = (r, v') \<Longrightarrow>
   (\<forall>out. r = Inr out \<longrightarrow> (\<exists>x. out = JO [(''campaign_id'', JS c), x]) \<and>
        (\<exists>d. table v' = store_item (table v) c ''channel_strategy'' d)) \<and>
   touches v v' c ''channel_strategy''"
  by (auto simp: agent4_def agent_payload_def handler_prims touches_def
           split: prod.splits sum.splits option.splits if_splits jv.splits)

lemma agent5_effect:
  "agent5 orc (agent_payload (JS c)) v = (r, v') \<Longrightarrow>
   (\<forall>out. r = Inr out \<longrightarrow> (\<exists>x. out = JO [(''campaign_id'', JS c), x]) \<and>
        (\<exists>d. table v' = store_item (table v) c ''evaluation'' d)) \<and>
   touches v v' c ''evaluation''"
  by (auto simp: agent5_def agent5_try_def agent5_except_def agent_payload_def handler_prims
                 touches_def
           split: prod.splits sum.splits option.splits if_splits jv.splits)

lemma below_six: "j < 6 \<Longrightarrow> j = 0 \<or> j = 1 \<or> j = 2 \<or> j = 3 \<or> j = 4 \<or> j = (5::nat)"
  by arith

text \<open>
  Every invocation the state machine makes: a handler that returns hands the id on in
  \<open>campaign_id\<close> and has put its record; whatever happens, the table changes by at most
  that one put.
\<close>

lemma handler_effect:
  assumes j: "j < 6"
    and call: "perform orc (Lambda j) (agent_payload (JS c)) v = (r, v')"
  shows "(\<forall>out. r = Inr out \<longrightarrow>
            (\<exists>x. out = JO [(''campaign_id'', JS (record_owner j c)), x]) \<and>
            (\<exists>d. table v' = store_item (table v) (record_owner j c) (step_names ! j) d)) \<and>
         touches v v' (record_owner j c) (step_names ! j)"
proof (cases "lambda_fault orc (tick v)")
  case (Some e)
  with call show ?thesis
    by (auto simp: perform_def invoke_lambda_def touches_def next_tick_def)
next
  case None
  with j call have h: "(agent_codes ! j) orc (agent_payload (JS c)) (next_tick v) = (r, v')"
    by (simp add: perform_def invoke_lambda_def agent_codes_def)
  have t: "table (next_tick v) = table v" by (simp add: next_tick_def)
  from below_six [OF j] show ?thesis
  proof (elim disjE)
    assume "j = 0"
    with h agent0_effect [of orc c "next_tick v" r v'] t show ?thesis
      by (simp add: agent_codes_def record_owner_def step_names_def touches_def)
  next
    assume "j = 1"
    with h agent1_effect [of orc c "next_tick v" r v'] t show ?thesis
      by (simp add: agent_codes_def record_owner_def step_names_def touches_def)
  next
    assume "j = 2"
    with h agent2_effect [of orc c "next_tick v" r v'] t show ?thesis
      by (simp add: agent_codes_def record_owner_def step_names_def touches_def)
  next
    assume "j = 3"
    with h agent3_effect [of orc c "next_tick v" r v'] t show ?thesis
      by (simp add: agent_codes_def record_owner_def step_names_def touches_def)
  next
    assume "j = 4"
    with h agent4_effect [of orc c "next_tick v" r v'] t show ?thesis
      by (simp add: agent_codes_def record_owner_def step_names_def touches_def)
  next
    assume "j = 5"
    with h agent5_effect [of orc c "next_tick v" r v'] t show ?thesis
      by (simp add: agent_codes_def record_owner_def step_names_def touches_def)
  qed
qed




lemma sns_task_table:
  "perform orc SnsPublish p v = (r, v') \<Longrightarrow> table v' = table v"
  by (auto simp: perform_def sdk_sns_publish_def handler_prims split: option.splits)
section \<open>Every Execution stops at Agent0\<close>

lemma run_parts: "ending run = Some oc \<Longrightarrow> \<exists>w'. run = Some (oc, history run, w')"
  by (auto simp: ending_def history_def split: option.splits)

lemma is_notify_simps [simp]:
  "is_notify NotifySuccess" "is_notify FailureNotify" "\<not> is_notify (AgentStep j)"
  by (simp_all add: is_notify_def)


text \<open>
  Claim C9, on the input the notebook starts its execution with, the services not
  failing. The state machine sends Agent0 the payload \<open>{campaign_id}\<close> and no brief
  location, as the claim says, and Agent0 falls back to the empty brief. But it then
  raises TypeError where it builds the payload of the model call, before it has stored or
  returned anything: no later agent is invoked, no record is filed under \<open>UNKNOWN\<close> or
  under any other id, and the one notification of the run names the submitted id.
\<close>

theorem unknown_id_is_never_used:
  "history quiet_run =
     [Entered (AgentStep 0),
      Called (Lambda 0) (JO [(''campaign_id'', JS ''X'')]) (Inl type_error),
      Entered FailureNotify,
      Called SnsPublish (failure_payload (readme_wording ''arn:topic'') (JS ''X'') type_error)
        (Inr (JO []))] \<and>
   lambda_calls (history quiet_run) = [0] \<and>
   stored quiet_run = [] \<and>
   published quiet_run = [(''Campaign Plan Failed'', ''Campaign X FAILED. Error: TypeError'')] \<and>
   ending quiet_run = Some (Completed FailureNotify (JO []))"
  by code_simp

section \<open>Ordering\<close>

text \<open>
  Claim C2. A run that ends in NotifySuccess has entered the agent states in the order
  \<open>0, 1, ..., n - 1\<close>, each once, and then NotifySuccess; its Lambda invocations come in
  non-decreasing index order and reach every agent; agent \<open>i\<close> is invoked once more than
  it was retried, and every retry was granted for an error the Retry block names. This
  holds for any number \<open>n\<close> of agents and any behaviour of the Lambdas.
\<close>

theorem ordering_of_successful_runs:
  assumes "start_execution io n wd input w = Some (Completed NotifySuccess out, tr, w')"
  shows "entered tr = map AgentStep [0..<n] @ [NotifySuccess] \<and>
         sorted (lambda_calls tr) \<and> set (lambda_calls tr) = {0..<n} \<and>
         (\<forall>i<n. count_list (lambda_calls tr) i = Suc (length (retries_of (AgentStep i) tr))) \<and>
         (\<forall>i. \<forall>ed \<in> set (retries_of (AgentStep i) tr). retryable (fst ed))"
proof -
  have n: "0 < n"
  proof (rule ccontr)
    assume "\<not> 0 < n"
    with assms show False by (simp add: start_execution_def exec.simps states_def)
  qed
  define Inv where "Inv = (\<lambda>j (d::jv) t (v::'a).
     entered t = map AgentStep [0..<j] \<and> sorted (lambda_calls t) \<and>
     (\<forall>k<j. k \<in> set (lambda_calls t)) \<and> (\<forall>x \<in> set (lambda_calls t). x < j) \<and>
     (\<forall>k<j. count_list (lambda_calls t) k = Suc (length (retries_of (AgentStep k) t))) \<and>
     (\<forall>k\<ge>j. retries_of (AgentStep k) t = []) \<and>
     (\<forall>k. \<forall>ed \<in> set (retries_of (AgentStep k) t). retryable (fst ed)))"
  define Mid where "Mid = (\<lambda>j (d::jv) t (v::'a).
     entered t = map AgentStep [0..<Suc j] \<and> sorted (lambda_calls t) \<and>
     (\<forall>k<j. k \<in> set (lambda_calls t)) \<and> (\<forall>x \<in> set (lambda_calls t). x \<le> j) \<and>
     (\<forall>k<j. count_list (lambda_calls t) k = Suc (length (retries_of (AgentStep k) t))) \<and>
     count_list (lambda_calls t) j = length (retries_of (AgentStep j) t) \<and>
     (\<forall>k>j. retries_of (AgentStep k) t = []) \<and>
     (\<forall>k. \<forall>ed \<in> set (retries_of (AgentStep k) t). retryable (fst ed)))"
  define Post where "Post = (\<lambda>oc t (v::'a). \<forall>out. oc = Completed NotifySuccess out \<longrightarrow>
     entered t = map AgentStep [0..<n] @ [NotifySuccess] \<and>
     sorted (lambda_calls t) \<and> set (lambda_calls t) = {0..<n} \<and>
     (\<forall>i<n. count_list (lambda_calls t) i = Suc (length (retries_of (AgentStep i) t))) \<and>
     (\<forall>i. \<forall>ed \<in> set (retries_of (AgentStep i) t). retryable (fst ed)))"
  from assms have run:
    "exec io (states n wd) (n + 1) (AgentStep 0) input [] w
       = Some (Completed NotifySuccess out, tr, w')"
    by (simp add: start_execution_def)
  have "Post (Completed NotifySuccess out) tr w'"
  proof (rule exec_rule [OF run n, where Inv = Inv and Mid = Mid and Fail = "\<lambda>j d e t v. True"])
    show "Inv 0 input [] w" by (simp add: Inv_def)
  next
    fix j d t v assume "j < n" "Inv j d t v"
    then show "Mid j d (t @ [Entered (AgentStep j)]) v"
      by (auto simp: Inv_def Mid_def count_list_0_iff)
  next
    fix j d t v cid out v'
    assume "j < n" "Mid j d t v"
    then show "Inv (Suc j) out (t @ [Called (Lambda j) (agent_payload cid) (Inr out)]) v'"
      by (auto simp: Inv_def Mid_def sorted_append less_Suc_eq)
  next
    fix j d t v cid e v' dl
    assume "j < n" "Mid j d t v" "retryable e"
    then show "Mid j d (t @ [Called (Lambda j) (agent_payload cid) (Inl e),
                        Retrying (AgentStep j) e dl]) v'"
      by (auto simp: Inv_def Mid_def sorted_append less_Suc_eq)
  next
    fix d t v cid r v'
    assume "Inv n d t v"
    then show "Post (result_of NotifySuccess r)
            (t @ [Entered NotifySuccess, Called SnsPublish (success_payload wd cid) r]) v'"
      by (auto simp: Inv_def Post_def)
  next
    fix j d e t v cid r v'
    show "Post (result_of FailureNotify r)
            (t @ [Entered FailureNotify, Called SnsPublish (failure_payload wd cid e) r]) v'"
      by (auto simp: Post_def result_of_completed)
  next
    fix j d t v
    show "Post (Aborted (runtime_error ''path not found''))
            (t @ [Entered (if j < n then AgentStep j else NotifySuccess)]) v"
      by (simp add: Post_def)
  qed simp
  then show ?thesis by (simp add: Post_def)
qed

text \<open>
  An instance: the machine of five agent states over the handlers of Agent1 to Agent5,
  whose first invocation is retried once after a fault of the Lambda service. (No run of
  the deployed workflow ends in NotifySuccess: Agent0 always fails.)
\<close>

theorem ordering_of_successful_runs_witness:
  "ending five_agent_run = Some (Completed NotifySuccess (JO [])) \<and>
   entered (history five_agent_run) = map AgentStep [0..<5] @ [NotifySuccess] \<and>
   sorted (lambda_calls (history five_agent_run)) \<and>
   set (lambda_calls (history five_agent_run)) = {0..<5} \<and>
   lambda_calls (history five_agent_run) = [0, 0, 1, 2, 3, 4] \<and>
   retries_of (AgentStep 0) (history five_agent_run) = [(service_exception, 2)] \<and>
   count_list (lambda_calls (history five_agent_run)) 0
     = Suc (length (retries_of (AgentStep 0) (history five_agent_run))) \<and>
   count_list (lambda_calls (history five_agent_run)) 4
     = Suc (length (retries_of (AgentStep 4) (history five_agent_run)))"
proof -
  have e: "ending five_agent_run = Some (Completed NotifySuccess (JO []))"
    by code_simp
  have l: "lambda_calls (history five_agent_run) = [0, 0, 1, 2, 3, 4]"
    by code_simp
  have r: "retries_of (AgentStep 0) (history five_agent_run) = [(service_exception, 2)]"
    by code_simp
  from run_parts [OF e] obtain w' where
    "five_agent_run = Some (Completed NotifySuccess (JO []), history five_agent_run, w')" ..
  then have "start_execution (later_agents (lambda_failing (\<lambda>k. k = 0))) 5
               (readme_wording ''arn:topic'') (agent_payload (JS ''X'')) empty_world
             = Some (Completed NotifySuccess (JO []), history five_agent_run, w')"
    by (simp add: five_agent_run_def)
  from ordering_of_successful_runs [OF this] have
    t1: "entered (history five_agent_run) = map AgentStep [0..<5] @ [NotifySuccess]"
    and t2: "sorted (lambda_calls (history five_agent_run))"
    and t3: "set (lambda_calls (history five_agent_run)) = {0..<5}"
    and t4: "\<forall>i<5. count_list (lambda_calls (history five_agent_run)) i
               = Suc (length (retries_of (AgentStep i) (history five_agent_run)))"
    by blast+
  from t4 have
    c0: "count_list (lambda_calls (history five_agent_run)) 0
           = Suc (length (retries_of (AgentStep 0) (history five_agent_run)))"
    and c4: "count_list (lambda_calls (history five_agent_run)) 4
           = Suc (length (retries_of (AgentStep 4) (history five_agent_run)))"
    by simp_all
  from e t1 t2 t3 l r c0 c4 show ?thesis by (intro conjI)
qed
section \<open>Fatal short-circuit\<close>

text \<open>
  When an invocation of agent \<open>i\<close> fails with an error the Retry block does not name,
  the run goes straight to FailureNotify: that failed call is followed by the entry of
  FailureNotify and its publish Task and by nothing else, so no later agent is invoked;
  the agent states entered are \<open>0..i\<close>, state \<open>i\<close> being the last one.
\<close>

lemma fatal_failure_path:
  assumes "start_execution io n wd input w = Some (oc, tr, w')"
    and "Called (Lambda i) p (Inl e) \<in> set tr"
    and "\<not> retryable e"
  shows "(\<exists>pre pl r. tr = pre @ [Called (Lambda i) p (Inl e), Entered FailureNotify,
                                  Called SnsPublish pl r] \<and>
                      oc = result_of FailureNotify r) \<and>
         entered tr = map AgentStep [0..<Suc i] @ [FailureNotify] \<and>
         (\<forall>k \<in> set (lambda_calls tr). k \<le> i)"
proof -
  have n: "0 < n"
  proof (rule ccontr)
    assume "\<not> 0 < n"
    with assms(1) have "tr = []" by (simp add: start_execution_def exec.simps states_def)
    with assms(2) show False by simp
  qed
  define Clean where "Clean = (\<lambda>t. \<forall>k q x. Called (Lambda k) q (Inl x) \<in> set t \<longrightarrow> retryable x)"
  define Inv where "Inv = (\<lambda>j (d::jv) t (v::'a).
     Clean t \<and> entered t = map AgentStep [0..<j] \<and> (\<forall>k \<in> set (lambda_calls t). k < j))"
  define Mid where "Mid = (\<lambda>j (d::jv) t (v::'a).
     Clean t \<and> entered t = map AgentStep [0..<Suc j] \<and> (\<forall>k \<in> set (lambda_calls t). k \<le> j))"
  define Fail where "Fail = (\<lambda>j (d::jv) x t (v::'a).
     (\<exists>pre q. t = pre @ [Called (Lambda j) q (Inl x)] \<and> Clean pre) \<and>
     entered t = map AgentStep [0..<Suc j] \<and> (\<forall>k \<in> set (lambda_calls t). k \<le> j))"
  define Post where "Post = (\<lambda>oc t (v::'a).
     \<forall>i p e. Called (Lambda i) p (Inl e) \<in> set t \<and> \<not> retryable e \<longrightarrow>
       (\<exists>pre pl r. t = pre @ [Called (Lambda i) p (Inl e), Entered FailureNotify,
                                Called SnsPublish pl r] \<and>
                    oc = result_of FailureNotify r) \<and>
       entered t = map AgentStep [0..<Suc i] @ [FailureNotify] \<and>
       (\<forall>k \<in> set (lambda_calls t). k \<le> i))"
  from assms(1) have run:
    "exec io (states n wd) (n + 1) (AgentStep 0) input [] w = Some (oc, tr, w')"
    by (simp add: start_execution_def)
  have "Post oc tr w'"
  proof (rule exec_rule [OF run n, where Inv = Inv and Mid = Mid and Fail = Fail])
    show "Inv 0 input [] w" by (simp add: Inv_def Clean_def)
  next
    fix j d t v assume "j < n" "Inv j d t v"
    then show "Mid j d (t @ [Entered (AgentStep j)]) v"
      by (auto simp: Inv_def Mid_def Clean_def dest: less_imp_le)
  next
    fix j d t v cid out v'
    assume "j < n" "Mid j d t v"
    then show "Inv (Suc j) out (t @ [Called (Lambda j) (agent_payload cid) (Inr out)]) v'"
      by (auto simp: Inv_def Mid_def Clean_def less_Suc_eq_le)
  next
    fix j d t v cid e v'
    assume "j < n" "Mid j d t v"
    then show "Fail j d e (t @ [Called (Lambda j) (agent_payload cid) (Inl e)]) v'"
      by (auto simp: Fail_def Mid_def)
  next
    fix j d t v cid e v' dl
    assume "j < n" "Mid j d t v" "retryable e"
    then show "Mid j d (t @ [Called (Lambda j) (agent_payload cid) (Inl e),
                        Retrying (AgentStep j) e dl]) v'"
      by (auto simp: Mid_def Clean_def)
  next
    fix d t v cid r v'
    assume "Inv n d t v"
    then show "Post (result_of NotifySuccess r)
            (t @ [Entered NotifySuccess, Called SnsPublish (success_payload wd cid) r]) v'"
      by (auto simp: Inv_def Post_def Clean_def)
  next
    fix j d x t v cid r v'
    assume "j < n" and f: "Fail j d x t v"
    from f obtain pre q where t: "t = pre @ [Called (Lambda j) q (Inl x)]" and c: "Clean pre"
      and en: "entered t = map AgentStep [0..<Suc j]"
      and le: "\<forall>k \<in> set (lambda_calls t). k \<le> j"
      by (auto simp: Fail_def)
    show "Post (result_of FailureNotify r)
            (t @ [Entered FailureNotify, Called SnsPublish (failure_payload wd cid x) r]) v'"
      unfolding Post_def
    proof (intro allI impI)
      fix i p e
      assume a: "Called (Lambda i) p (Inl e)
                   \<in> set (t @ [Entered FailureNotify,
                               Called SnsPublish (failure_payload wd cid x) r]) \<and>
                 \<not> retryable e"
      with c t have eq: "i = j" "p = q" "e = x" by (auto simp: Clean_def)
      with t en le show
        "(\<exists>pre pl ra. t @ [Entered FailureNotify,
                            Called SnsPublish (failure_payload wd cid x) r]
                        = pre @ [Called (Lambda i) p (Inl e), Entered FailureNotify,
                                 Called SnsPublish pl ra] \<and>
                       result_of FailureNotify r = result_of FailureNotify ra) \<and>
         entered (t @ [Entered FailureNotify,
                       Called SnsPublish (failure_payload wd cid x) r])
           = map AgentStep [0..<Suc i] @ [FailureNotify] \<and>
         (\<forall>k \<in> set (lambda_calls (t @ [Entered FailureNotify,
                       Called SnsPublish (failure_payload wd cid x) r])). k \<le> i)"
        by auto
    qed
  next
    fix j d t v
    assume "Inv j d t v"
    then show "Post (Aborted (runtime_error ''path not found''))
            (t @ [Entered (if j < n then AgentStep j else NotifySuccess)]) v"
      by (auto simp: Post_def Inv_def Clean_def)
  qed
  with assms(2,3) show ?thesis unfolding Post_def by blast
qed

text \<open>
  Claim C4, as the code has it. After a fatal failure of agent \<open>i\<close> no later agent is
  invoked and state \<open>i\<close> is the last agent state entered, as the claim says. The
  Execution does not end as failed, though: the Catch takes the error and the machine
  ends in FailureNotify, a state with \<open>"End": True\<close>, so the Execution has succeeded once
  the failure notification is published; it has failed only if that publish call fails.
  This holds for any number of agents and any behaviour of the Lambdas.
\<close>

theorem fatal_short_circuit:
  assumes "start_execution io n wd input w = Some (oc, tr, w')"
    and "Called (Lambda i) p (Inl e) \<in> set tr"
    and "\<not> retryable e"
  shows "(\<exists>pre pl r. tr = pre @ [Called (Lambda i) p (Inl e), Entered FailureNotify,
                                  Called SnsPublish pl r] \<and>
                      oc = result_of FailureNotify r \<and>
                      status_of oc = (case r of Inl x \<Rightarrow> FAILED | Inr y \<Rightarrow> SUCCEEDED)) \<and>
         entered tr = map AgentStep [0..<Suc i] @ [FailureNotify] \<and>
         (\<forall>k \<in> set (lambda_calls tr). k \<le> i)"
proof -
  from fatal_failure_path [OF assms] obtain pre pl r where
    t: "tr = pre @ [Called (Lambda i) p (Inl e), Entered FailureNotify, Called SnsPublish pl r]"
    and o: "oc = result_of FailureNotify r"
    and en: "entered tr = map AgentStep [0..<Suc i] @ [FailureNotify]"
    and le: "\<forall>k \<in> set (lambda_calls tr). k \<le> i"
    by blast
  from o have "status_of oc = (case r of Inl x \<Rightarrow> FAILED | Inr y \<Rightarrow> SUCCEEDED)"
    by (cases r) (simp_all add: result_of_def)
  with t o en le show ?thesis by blast
qed

text \<open>
  An instance: the run of the deployed workflow in which no service fails. Agent0 fails
  with TypeError, which the Retry block does not name.
\<close>

theorem fatal_short_circuit_witness:
  "Called (Lambda 0) (agent_payload (JS ''X'')) (Inl type_error) \<in> set (history quiet_run) \<and>
   \<not> retryable type_error \<and>
   ending quiet_run = Some (Completed FailureNotify (JO [])) \<and>
   (\<exists>pre pl r. history quiet_run
                  = pre @ [Called (Lambda 0) (agent_payload (JS ''X'')) (Inl type_error),
                           Entered FailureNotify, Called SnsPublish pl r] \<and>
                Completed FailureNotify (JO []) = result_of FailureNotify r \<and>
                status_of (Completed FailureNotify (JO []))
                  = (case r of Inl x \<Rightarrow> FAILED | Inr y \<Rightarrow> SUCCEEDED)) \<and>
   entered (history quiet_run) = map AgentStep [0..<Suc 0] @ [FailureNotify] \<and>
   lambda_calls (history quiet_run) = [0]"
proof -
  have e: "ending quiet_run = Some (Completed FailureNotify (JO []))"
    by code_simp
  have c: "Called (Lambda 0) (agent_payload (JS ''X'')) (Inl type_error)
             \<in> set (history quiet_run)"
    by code_simp
  have f: "\<not> retryable type_error"
    by (simp add: retryable_def type_error_def lambda_retry_def)
  have l: "lambda_calls (history quiet_run) = [0]"
    by code_simp
  from run_parts [OF e] obtain w' where
    "quiet_run = Some (Completed FailureNotify (JO []), history quiet_run, w')" ..
  then have "start_execution (perform quiet_services) 6
               (readme_wording ''arn:topic'') test_input empty_world
             = Some (Completed FailureNotify (JO []), history quiet_run, w')"
    by (simp add: quiet_run_def test_run_def run_workflow_def num_agents_def)
  from fatal_short_circuit [OF this c f] have
    t1: "\<exists>pre pl r. history quiet_run
                  = pre @ [Called (Lambda 0) (agent_payload (JS ''X'')) (Inl type_error),
                           Entered FailureNotify, Called SnsPublish pl r] \<and>
                Completed FailureNotify (JO []) = result_of FailureNotify r \<and>
                status_of (Completed FailureNotify (JO []))
                  = (case r of Inl x \<Rightarrow> FAILED | Inr y \<Rightarrow> SUCCEEDED)"
    and t2: "entered (history quiet_run) = map AgentStep [0..<Suc 0] @ [FailureNotify]"
    by blast+
  from c f e t1 t2 l show ?thesis by (intro conjI)
qed

text \<open>
  On that run agent 0 fails fatally and the Execution does not end as failed: it ends
  in FailureNotify, as succeeded.
\<close>

theorem fatal_short_circuit_counterexample:
  "calls_to 0 (history quiet_run) = [Inl type_error] \<and>
   \<not> retryable type_error \<and>
   ending quiet_run = Some (Completed FailureNotify (JO [])) \<and>
   map_option status_of (ending quiet_run) = Some SUCCEEDED \<and>
   map_option status_of (ending quiet_run) \<noteq> Some FAILED"
  by code_simp

section \<open>Retry exhaustion\<close>

text \<open>
  Claim C3, as the code has it. An agent whose invocations all fail with an error the
  Retry block names is invoked four times, the first attempt and the three retries that
  \<open>MaxAttempts = 3\<close> grants, with waits of 2, 4 and 8 seconds in between; then the
  Catch sends the run to FailureNotify, which publishes the name of the last error.
  \<open>w1\<close>, \<open>w2\<close>, \<open>w3\<close> are the worlds the failed invocations leave behind, each the one
  the next invocation is made in.
\<close>

theorem retry_exhaustion:
  assumes i: "i < n"
    and cid: "get_field data ''campaign_id'' = Some cid"
    and c0: "io (Lambda i) (agent_payload cid) w = (Inl e0, w1)" and r0: "retryable e0"
    and c1: "io (Lambda i) (agent_payload cid) w1 = (Inl e1, w2)" and r1: "retryable e1"
    and c2: "io (Lambda i) (agent_payload cid) w2 = (Inl e2, w3)" and r2: "retryable e2"
    and c3: "io (Lambda i) (agent_payload cid) w3 = (Inl e3, w4)" and r3: "retryable e3"
  shows "\<exists>r w'.
     exec io (states n wd) (Suc (Suc fuel)) (AgentStep i) data tr w =
       Some (result_of FailureNotify r,
             tr @ [Entered (AgentStep i),
                   Called (Lambda i) (agent_payload cid) (Inl e0), Retrying (AgentStep i) e0 2,
                   Called (Lambda i) (agent_payload cid) (Inl e1), Retrying (AgentStep i) e1 4,
                   Called (Lambda i) (agent_payload cid) (Inl e2), Retrying (AgentStep i) e2 8,
                   Called (Lambda i) (agent_payload cid) (Inl e3),
                   Entered FailureNotify,
                   Called SnsPublish (failure_payload wd cid e3) r], w')"
proof -
  obtain r w5 where p: "io SnsPublish (failure_payload wd cid e3) w4 = (r, w5)"
    by (cases "io SnsPublish (failure_payload wd cid e3) w4")
  have att: "attempt io (AgentStep i) (Lambda i) (agent_payload cid) [(lambda_retry, 0)]
               (tr @ [Entered (AgentStep i)]) w =
             (Inl e3,
              tr @ [Entered (AgentStep i),
                    Called (Lambda i) (agent_payload cid) (Inl e0), Retrying (AgentStep i) e0 2,
                    Called (Lambda i) (agent_payload cid) (Inl e1), Retrying (AgentStep i) e1 4,
                    Called (Lambda i) (agent_payload cid) (Inl e2), Retrying (AgentStep i) e2 8,
                    Called (Lambda i) (agent_payload cid) (Inl e3)], w4)"
  proof -
    note st = pick_lambda_retry_steps
    note a0 = attempt_retry [where io = io and res = "Lambda i" and payload = "agent_payload cid"
        and w = w, OF c0 st(1) [OF r0]]
    note a1 = attempt_retry [where io = io and res = "Lambda i" and payload = "agent_payload cid"
        and w = w1, OF c1 st(2) [OF r1]]
    note a2 = attempt_retry [where io = io and res = "Lambda i" and payload = "agent_payload cid"
        and w = w2, OF c2 st(3) [OF r2]]
    note a3 = attempt_stop [where io = io and res = "Lambda i" and payload = "agent_payload cid"
        and w = w3, OF c3 st(4) [OF r3]]
    show ?thesis by (simp add: a0 a1 a2 a3)
  qed
  from failure_data [OF cid, of e3] obtain d' where
    sp: "set_path [''error''] (error_obj e3) data = Some d'" and
    l1: "get_field d' ''campaign_id'' = Some cid" and
    l2: "get_field d' ''error'' = Some (error_obj e3)" by blast
  have "exec io (states n wd) (Suc (Suc fuel)) (AgentStep i) data tr w =
       Some (result_of FailureNotify r,
             tr @ [Entered (AgentStep i),
                   Called (Lambda i) (agent_payload cid) (Inl e0), Retrying (AgentStep i) e0 2,
                   Called (Lambda i) (agent_payload cid) (Inl e1), Retrying (AgentStep i) e1 4,
                   Called (Lambda i) (agent_payload cid) (Inl e2), Retrying (AgentStep i) e2 8,
                   Called (Lambda i) (agent_payload cid) (Inl e3),
                   Entered FailureNotify,
                   Called SnsPublish (failure_payload wd cid e3) r], w5)"
    using i cid att sp p by (simp add: exec_agent_step exec_failure_notify [OF l1 l2])
  then show ?thesis by blast
qed

text \<open>
  An instance: the Execution of the deployed workflow during an outage of the Lambda
  service. Every invocation of Agent0 fails with \<open>Lambda.ServiceException\<close> and costs
  one call.
\<close>

theorem retry_exhaustion_witness:
  "get_field test_input ''campaign_id'' = Some (JS ''X'') \<and>
   perform dead_lambda (Lambda 0) (agent_payload (JS ''X'')) empty_world
     = (Inl service_exception, empty_world\<lparr>tick := 1\<rparr>) \<and>
   perform dead_lambda (Lambda 0) (agent_payload (JS ''X'')) (empty_world\<lparr>tick := 1\<rparr>)
     = (Inl service_exception, empty_world\<lparr>tick := 2\<rparr>) \<and>
   perform dead_lambda (Lambda 0) (agent_payload (JS ''X'')) (empty_world\<lparr>tick := 2\<rparr>)
     = (Inl service_exception, empty_world\<lparr>tick := 3\<rparr>) \<and>
   perform dead_lambda (Lambda 0) (agent_payload (JS ''X'')) (empty_world\<lparr>tick := 3\<rparr>)
     = (Inl service_exception, empty_world\<lparr>tick := 4\<rparr>) \<and>
   retryable service_exception \<and>
   (\<exists>r w'.
     dead_lambda_run =
       Some (result_of FailureNotify r,
             [Entered (AgentStep 0),
              Called (Lambda 0) (agent_payload (JS ''X'')) (Inl service_exception),
              Retrying (AgentStep 0) service_exception 2,
              Called (Lambda 0) (agent_payload (JS ''X'')) (Inl service_exception),
              Retrying (AgentStep 0) service_exception 4,
              Called (Lambda 0) (agent_payload (JS ''X'')) (Inl service_exception),
              Retrying (AgentStep 0) service_exception 8,
              Called (Lambda 0) (agent_payload (JS ''X'')) (Inl service_exception),
              Entered FailureNotify,
              Called SnsPublish
                (failure_payload (readme_wording ''arn:topic'') (JS ''X'') service_exception) r],
             w'))"
proof -
  have g: "get_field test_input ''campaign_id'' = Some (JS ''X'')"
    by (simp add: test_input_def start_input_def)
  have c: "perform dead_lambda (Lambda 0) (agent_payload (JS ''X'')) empty_world
             = (Inl service_exception, empty_world\<lparr>tick := 1\<rparr>)"
    "perform dead_lambda (Lambda 0) (agent_payload (JS ''X'')) (empty_world\<lparr>tick := 1\<rparr>)
             = (Inl service_exception, empty_world\<lparr>tick := 2\<rparr>)"
    "perform dead_lambda (Lambda 0) (agent_payload (JS ''X'')) (empty_world\<lparr>tick := 2\<rparr>)
             = (Inl service_exception, empty_world\<lparr>tick := 3\<rparr>)"
    "perform dead_lambda (Lambda 0) (agent_payload (JS ''X'')) (empty_world\<lparr>tick := 3\<rparr>)
             = (Inl service_exception, empty_world\<lparr>tick := 4\<rparr>)"
    by (simp_all add: perform_def invoke_lambda_def dead_lambda_def lambda_failing_def
                      quiet_services_def next_tick_def empty_world_def)
  have r: "retryable service_exception"
    by (simp add: retryable_def service_exception_def lambda_retry_def)
  have i: "(0::nat) < 6" by simp
  have d: "dead_lambda_run =
             exec (perform dead_lambda) (states 6 (readme_wording ''arn:topic''))
               (Suc (Suc 5)) (AgentStep 0) test_input [] empty_world"
    by (simp add: dead_lambda_run_def test_run_def run_workflow_def start_execution_def
                  num_agents_def)
  from retry_exhaustion [where io = "perform dead_lambda" and i = 0 and n = 6
      and data = test_input and cid = "JS ''X''"
      and wd = "readme_wording ''arn:topic''" and fuel = 5 and tr = "[]" and w = empty_world,
      OF i g c(1) r c(2) r c(3) r c(4) r]
  have "\<exists>r w'.
     dead_lambda_run =
       Some (result_of FailureNotify r,
             [Entered (AgentStep 0),
              Called (Lambda 0) (agent_payload (JS ''X'')) (Inl service_exception),
              Retrying (AgentStep 0) service_exception 2,
              Called (Lambda 0) (agent_payload (JS ''X'')) (Inl service_exception),
              Retrying (AgentStep 0) service_exception 4,
              Called (Lambda 0) (agent_payload (JS ''X'')) (Inl service_exception),
              Retrying (AgentStep 0) service_exception 8,
              Called (Lambda 0) (agent_payload (JS ''X'')) (Inl service_exception),
              Entered FailureNotify,
              Called SnsPublish
                (failure_payload (readme_wording ''arn:topic'') (JS ''X'') service_exception) r],
             w')"
    by (simp add: d)
  with g c r show ?thesis by (intro conjI)
qed

text \<open>
  The claim's count fails on that Execution: Agent0 is invoked four times, not three.
\<close>

theorem retry_exhaustion_counterexample:
  "calls_to 0 (history dead_lambda_run) =
     [Inl service_exception, Inl service_exception, Inl service_exception, Inl service_exception] \<and>
   length (calls_to 0 (history dead_lambda_run)) \<noteq> 3 \<and>
   map snd (retries_of (AgentStep 0) (history dead_lambda_run)) = [2, 4, 8] \<and>
   entered (history dead_lambda_run) = [AgentStep 0, FailureNotify] \<and>
   ending dead_lambda_run = Some (Completed FailureNotify (JO []))"
  by code_simp

section \<open>Terminal notification\<close>




text \<open>
  Claim C7, as the code has it. The two notification states have no Retry and no Catch:
  when their publish call fails, the Execution ends with the error of the publish call
  as its outcome, that is as failed, whatever the agents did before. The table is not
  touched by it.
\<close>

theorem notification_failure_ends_run:
  assumes cid: "get_field data ''campaign_id'' = Some cid"
    and state: "s = NotifySuccess \<and> payload = success_payload wd cid \<or>
                s = FailureNotify \<and> get_field data ''error'' = Some (error_obj x) \<and>
                  payload = failure_payload wd cid x"
    and fault: "sns_fault orc (tick w) = Some e"
  shows "\<exists>w'. exec (perform orc) (states n wd) (Suc fuel) s data tr w =
                 Some (Aborted e, tr @ [Entered s, Called SnsPublish payload (Inl e)], w') \<and>
               table w' = table w"
proof -
  obtain r w' where p: "perform orc SnsPublish payload w = (r, w')"
    by (cases "perform orc SnsPublish payload w")
  with fault have r: "r = Inl e"
    by (auto simp: perform_def sdk_sns_publish_def handler_prims)
  from sns_task_table [OF p] have t: "table w' = table w" .
  from state show ?thesis
  proof (elim disjE conjE)
    assume "s = NotifySuccess" "payload = success_payload wd cid"
    with cid p r t show ?thesis by (simp add: exec_notify_success)
  next
    assume "s = FailureNotify" "get_field data ''error'' = Some (error_obj x)"
      "payload = failure_payload wd cid x"
    with cid p r t show ?thesis by (simp add: exec_failure_notify)
  qed
qed

theorem notification_failure_ends_run_witness:
  "get_field (agent_payload (JS ''X'')) ''campaign_id'' = Some (JS ''X'') \<and>
   sns_fault (sns_failing (\<lambda>k. True)) (tick empty_world) = Some client_error \<and>
   (\<exists>w'. exec (perform (sns_failing (\<lambda>k. True))) (states 6 (readme_wording ''arn:topic''))
             (Suc 0) NotifySuccess (agent_payload (JS ''X'')) [] empty_world =
            Some (Aborted client_error,
                  [] @ [Entered NotifySuccess,
                        Called SnsPublish
                          (success_payload (readme_wording ''arn:topic'') (JS ''X''))
                          (Inl client_error)], w') \<and>
          table w' = table empty_world)"
proof -
  have c: "get_field (agent_payload (JS ''X'')) ''campaign_id'' = Some (JS ''X'')"
    by (simp add: agent_payload_def)
  have f: "sns_fault (sns_failing (\<lambda>k. True)) (tick empty_world) = Some client_error"
    by (simp add: sns_failing_def quiet_services_def)
  have s: "NotifySuccess = NotifySuccess \<and>
             success_payload (readme_wording ''arn:topic'') (JS ''X'')
               = success_payload (readme_wording ''arn:topic'') (JS ''X'') \<or>
           NotifySuccess = FailureNotify \<and>
             get_field (agent_payload (JS ''X'')) ''error'' = Some (error_obj client_error) \<and>
             success_payload (readme_wording ''arn:topic'') (JS ''X'')
               = failure_payload (readme_wording ''arn:topic'') (JS ''X'') client_error"
    by simp
  from notification_failure_ends_run [OF c s f, of 6 0 "[]"] c f show ?thesis by simp
qed

text \<open>
  The Execution of the deployed workflow in which the publish of FailureNotify fails,
  beside the one in which it does not: Agent0 fails in both in the same way, and the
  first Execution ends as failed, the second as succeeded.
\<close>

theorem notification_failure_counterexample:
  "calls_to 0 (history notify_failure_run) = [Inl type_error] \<and>
   calls_to 0 (history quiet_run) = [Inl type_error] \<and>
   entered (history notify_failure_run) = [AgentStep 0, FailureNotify] \<and>
   entered (history quiet_run) = [AgentStep 0, FailureNotify] \<and>
   ending notify_failure_run = Some (Aborted client_error) \<and>
   ending quiet_run = Some (Completed FailureNotify (JO [])) \<and>
   map_option status_of (ending notify_failure_run) = Some FAILED \<and>
   map_option status_of (ending quiet_run) = Some SUCCEEDED \<and>
   map_option status_of (ending notify_failure_run) \<noteq> map_option status_of (ending quiet_run)"
  by code_simp

section \<open>Missing records, partial writes\<close>

lemma lookup_store_same: "lookup_item (store_item tbl c s d) c s = Some d"
  by (induction tbl) (auto simp: lookup_item_def store_item_def item_key_def)

text \<open>
  With services that do not fail, each of the handlers of Agent1 to Agent5 returns
  normally and has put its own record, whichever records of earlier steps the table has
  or lacks (a brief that is there has to be well-formed).
\<close>

lemma agent_proceeds:
  assumes j: "1 \<le> j" "j < 6"
    and plain: "brief_is_plain (table w) c"
    and ok: "fault_free orc"
  shows "\<exists>out w'. (agent_codes ! j) orc (agent_payload (JS c)) w = (Inr out, w') \<and>
           lookup_item (table w') c (step_names ! j) \<noteq> None"
proof -
  from ok have d: "\<And>k. dynamo_fault orc k = None" and s3: "\<And>k. s3_put_fault orc k = None"
    and sn: "\<And>k. sns_fault orc k = None" and b: "\<And>k e. bedrock_text orc k \<noteq> Inl e"
    by (auto simp: fault_free_def) (metis sum.distinct(1))
  from j have "j = 1 \<or> j = 2 \<or> j = 3 \<or> j = 4 \<or> j = 5" by arith
  then show ?thesis
  proof (elim disjE)
    assume "j = 1"
    with plain show ?thesis
      by (auto simp: agent_codes_def agent1_def agent_payload_def handler_prims d b
                    step_names_def lookup_store_same brief_is_plain_def text_or_absent_def
               split: option.splits sum.splits jv.splits)
  next
    assume "j = 2"
    with plain show ?thesis
      by (auto simp: agent_codes_def agent2_def agent_payload_def handler_prims d b
                    step_names_def lookup_store_same brief_is_plain_def text_or_absent_def
               split: option.splits sum.splits jv.splits list.splits)
  next
    assume "j = 3"
    with plain show ?thesis
      by (auto simp: agent_codes_def agent3_def agent_payload_def handler_prims d b s3
                    step_names_def lookup_store_same brief_is_plain_def text_or_absent_def
               split: option.splits sum.splits jv.splits)
  next
    assume "j = 4"
    with plain show ?thesis
      by (auto simp: agent_codes_def agent4_def agent_payload_def handler_prims d b
                    step_names_def lookup_store_same brief_is_plain_def text_or_absent_def
               split: option.splits sum.splits jv.splits)
  next
    assume "j = 5"
    then show ?thesis
      by (auto simp: agent_codes_def agent5_def agent5_try_def agent_payload_def handler_prims
                    d b sn step_names_def lookup_store_same
               split: option.splits sum.splits jv.splits)
  qed
qed

text \<open>
  Claim C8, as the code has it. A missing record of an earlier step is not an error for
  an agent: \<open>get_item\<close> answers without an \<open>Item\<close> and the handler goes on with the
  empty default. With services that do not fail, the Task of each of Agent1Step to
  Agent5Step succeeds at its first invocation, whichever records of earlier steps are
  missing: the handler returns normally and has written its own record, nothing is
  retried, and the Execution goes on with the next state, not with FailureNotify.
\<close>

theorem missing_record_is_tolerated:
  assumes j: "1 \<le> j" "j < 6"
    and cid: "get_field data ''campaign_id'' = Some (JS c)"
    and plain: "brief_is_plain (table w) c"
    and ok: "fault_free orc"
  shows "\<exists>out w'.
     perform orc (Lambda j) (agent_payload (JS c)) w = (Inr out, w') \<and>
     lookup_item (table w') c (step_names ! j) \<noteq> None \<and>
     exec (perform orc) (states 6 wd) (Suc fuel) (AgentStep j) data tr w =
       exec (perform orc) (states 6 wd) fuel
         (if j < 5 then AgentStep (j + 1) else NotifySuccess) out
         (tr @ [Entered (AgentStep j), Called (Lambda j) (agent_payload (JS c)) (Inr out)]) w'"
proof -
  from ok have lf: "lambda_fault orc (tick w) = None" by (simp add: fault_free_def)
  have "brief_is_plain (table (next_tick w)) c" using plain by (simp add: next_tick_def)
  from agent_proceeds [OF j this ok] obtain out w' where
    h: "(agent_codes ! j) orc (agent_payload (JS c)) (next_tick w) = (Inr out, w')"
    and l: "lookup_item (table w') c (step_names ! j) \<noteq> None"
    by blast
  from h lf j have call: "perform orc (Lambda j) (agent_payload (JS c)) w = (Inr out, w')"
    by (simp add: perform_def invoke_lambda_def agent_codes_def)
  note att = attempt_ok [where io = "perform orc" and res = "Lambda j"
      and payload = "agent_payload (JS c)" and w = w, OF call]
  from j have n: "j < 6 - 1 \<longleftrightarrow> j < 5" by arith
  have "exec (perform orc) (states 6 wd) (Suc fuel) (AgentStep j) data tr w =
       exec (perform orc) (states 6 wd) fuel
         (if j < 5 then AgentStep (j + 1) else NotifySuccess) out
         (tr @ [Entered (AgentStep j), Called (Lambda j) (agent_payload (JS c)) (Inr out)]) w'"
    using j(2) cid att n by (simp add: exec_agent_step)
  with call l show ?thesis by blast
qed

text \<open>
  An instance: Agent1Step entered for \<open>X\<close> on an empty table, where the
  \<open>input_extracted\<close> record that Agent1 reads is missing.
\<close>

theorem missing_record_is_tolerated_witness:
  "get_field (agent_payload (JS ''X'')) ''campaign_id'' = Some (JS ''X'') \<and>
   lookup_item (table empty_world) ''X'' ''input_extracted'' = None \<and>
   brief_is_plain (table empty_world) ''X'' \<and>
   fault_free quiet_services \<and>
   (\<exists>out w'.
      perform quiet_services (Lambda 1) (agent_payload (JS ''X'')) empty_world = (Inr out, w') \<and>
      lookup_item (table w') ''X'' (step_names ! 1) \<noteq> None \<and>
      exec (perform quiet_services) (states 6 (readme_wording ''arn:topic'')) (Suc 1)
           (AgentStep 1) (agent_payload (JS ''X'')) [] empty_world =
        exec (perform quiet_services) (states 6 (readme_wording ''arn:topic'')) 1
          (AgentStep 2) out
          ([] @ [Entered (AgentStep 1), Called (Lambda 1) (agent_payload (JS ''X'')) (Inr out)])
          w')"
proof -
  have g: "get_field (agent_payload (JS ''X'')) ''campaign_id'' = Some (JS ''X'')"
    by (simp add: agent_payload_def)
  have m: "lookup_item (table empty_world) ''X'' ''input_extracted'' = None"
    by (simp add: empty_world_def lookup_item_def)
  have p: "brief_is_plain (table empty_world) ''X''"
    by (simp add: brief_is_plain_def empty_world_def lookup_item_def)
  have f: "fault_free quiet_services" by (simp add: fault_free_def quiet_services_def)
  have j: "(1::nat) \<le> 1" "(1::nat) < 6" by simp_all
  from missing_record_is_tolerated [OF j g p f, of "readme_wording ''arn:topic''" 1 "[]"]
  have "\<exists>out w'.
      perform quiet_services (Lambda 1) (agent_payload (JS ''X'')) empty_world = (Inr out, w') \<and>
      lookup_item (table w') ''X'' (step_names ! 1) \<noteq> None \<and>
      exec (perform quiet_services) (states 6 (readme_wording ''arn:topic'')) (Suc 1)
           (AgentStep 1) (agent_payload (JS ''X'')) [] empty_world =
        exec (perform quiet_services) (states 6 (readme_wording ''arn:topic'')) 1
          (AgentStep 2) out
          ([] @ [Entered (AgentStep 1), Called (Lambda 1) (agent_payload (JS ''X'')) (Inr out)])
          w'"
    by (simp add: numeral_2_eq_2)
  with g m p f show ?thesis by (intro conjI)
qed

text \<open>
  Agent1 invoked for \<open>X\<close> on an empty table: no \<open>input_extracted\<close> record, and the
  handler returns its interpretation and has stored it.
\<close>

theorem missing_record_counterexample:
  "lookup_item (table empty_world) ''X'' ''input_extracted'' = None \<and>
   fst orphan_call =
     Inr (JO [(''campaign_id'', JS ''X''), (''interpretation'', JS ''generated text'')]) \<and>
   table (snd orphan_call) = [(''X'', ''business_context'', JS ''generated text'')]"
  by code_simp

text \<open>
  Claim C10. Agent3 puts its \<open>content_samples\<close> record before it writes the asset to
  S3. When the reads, the model call and the put succeed and the S3 write then fails,
  the handler raises the error of the S3 write, the record it has put is in the table,
  and the assets bucket is as it was.
\<close>

theorem content_record_survives_failed_upload:
  assumes reads: "dynamo_fault orc (tick w) = None" "dynamo_fault orc (tick w + 1) = None"
    and aud: "audience_is_text (table w) c"
    and gen: "bedrock_text orc (tick w + 2) = Inr content"
    and put: "dynamo_fault orc (tick w + 3) = None"
    and s3: "s3_put_fault orc (tick w + 4) = Some e"
  shows "fst (agent3 orc (agent_payload (JS c)) w) = Inl e \<and>
         table (snd (agent3 orc (agent_payload (JS c)) w))
           = store_item (table w) c ''content_samples'' (JS content) \<and>
         lookup_item (table (snd (agent3 orc (agent_payload (JS c)) w))) c ''content_samples''
           = Some (JS content) \<and>
         assets (snd (agent3 orc (agent_payload (JS c)) w)) = assets w"
proof -
  have t: "tick w + 1 = Suc (tick w)" "tick w + 2 = Suc (Suc (tick w))"
    "tick w + 3 = Suc (Suc (Suc (tick w)))" "tick w + 4 = Suc (Suc (Suc (Suc (tick w))))"
    by simp_all
  note facts = reads(1) reads(2) [unfolded t] gen [unfolded t] put [unfolded t] s3 [unfolded t]
  show ?thesis
  proof (cases "lookup_item (table w) c ''input_extracted''")
    case None
    with facts show ?thesis
      by (simp add: agent3_def agent_payload_def handler_prims lookup_store_same)
  next
    case (Some d)
    with aud obtain kvs where d: "d = JO kvs"
      by (cases d) (simp_all add: audience_is_text_def)
    show ?thesis
    proof (cases "map_of kvs ''target_audience''")
      case None
      with Some d facts show ?thesis
        by (simp add: agent3_def agent_payload_def handler_prims lookup_store_same)
    next
      case (Some a)
      with aud \<open>lookup_item (table w) c ''input_extracted'' = Some d\<close> d
      obtain au where "a = JS au"
        by (cases a) (simp_all add: audience_is_text_def)
      with Some \<open>lookup_item (table w) c ''input_extracted'' = Some d\<close> d facts show ?thesis
        by (simp add: agent3_def agent_payload_def handler_prims lookup_store_same)
    qed
  qed
qed

theorem content_record_survives_failed_upload_witness:
  "audience_is_text (table (next_tick empty_world)) ''X'' \<and>
   s3_put_fault s3_failing_once (tick (next_tick empty_world) + 4) = Some client_error \<and>
   fst (agent3 s3_failing_once (agent_payload (JS ''X'')) (next_tick empty_world))
     = Inl client_error \<and>
   table (snd (agent3 s3_failing_once (agent_payload (JS ''X'')) (next_tick empty_world)))
     = store_item (table (next_tick empty_world)) ''X'' ''content_samples'' (JS ''generated text'') \<and>
   assets (snd (agent3 s3_failing_once (agent_payload (JS ''X'')) (next_tick empty_world)))
     = assets (next_tick empty_world)"
proof -
  have r: "dynamo_fault s3_failing_once (tick (next_tick empty_world)) = None"
      "dynamo_fault s3_failing_once (tick (next_tick empty_world) + 1) = None"
      "dynamo_fault s3_failing_once (tick (next_tick empty_world) + 3) = None"
    by (simp_all add: s3_failing_once_def quiet_services_def)
  have a: "audience_is_text (table (next_tick empty_world)) ''X''"
    by (simp add: audience_is_text_def empty_world_def lookup_item_def next_tick_def)
  have g: "bedrock_text s3_failing_once (tick (next_tick empty_world) + 2) = Inr ''generated text''"
    by (simp add: s3_failing_once_def quiet_services_def)
  have s: "s3_put_fault s3_failing_once (tick (next_tick empty_world) + 4) = Some client_error"
    by (simp add: s3_failing_once_def quiet_services_def empty_world_def next_tick_def)
  from content_record_survives_failed_upload [OF r(1) r(2) a g r(3) s] a s
  show ?thesis by simp
qed


section \<open>The evaluator fails\<close>




text \<open>
  What is published when the model call of the evaluator is rejected: Agent5's notice
  has the text of the error, the message of FailureNotify has its name.
\<close>

lemma notices_on_model_rejection:
  "published evaluator_rejected =
     [(''Campaign Plan Failed'',
       ''Campaign X failed at evaluation step: The model rejected the prompt''),
      (''Campaign Plan Failed'', ''Campaign X FAILED. Error: ClientError'')] \<and>
   \<not> contains (snd (last (published evaluator_rejected))) (emsg client_error) \<and>
   contains (snd (last (published evaluator_rejected))) (etype client_error)"
  by code_simp

section \<open>Idempotent retry\<close>

lemma store_item_others [simp]:
  "other_records (store_item tbl c s d) (c, s) = other_records tbl (c, s)"
  by (simp add: other_records_def store_item_def item_key_def)

lemma store_item_own [simp]:
  "records_of (store_item tbl c s d) (c, s) = [(c, s, d)]"
  by (simp add: records_of_def store_item_def item_key_def)

lemma store_item_distinct:
  "distinct (map item_key tbl) \<Longrightarrow> distinct (map item_key (store_item tbl c s d))"
  by (auto simp: store_item_def distinct_map_filter item_key_def)

lemma distinct_keys_one_record:
  "distinct (map item_key tbl) \<Longrightarrow> length (records_of tbl k) \<le> 1"
proof (induction tbl)
  case Nil
  then show ?case by (simp add: records_of_def)
next
  case (Cons it tbl)
  show ?case
  proof (cases "item_key it = k")
    case True
    with Cons.prems have "k \<notin> item_key ` set tbl" by simp
    then have "\<forall>x \<in> set tbl. item_key x \<noteq> k" by blast
    then have "records_of tbl k = []" by (simp add: records_of_def filter_empty_conv)
    with True show ?thesis by (simp add: records_of_def)
  next
    case False
    with Cons show ?thesis by (simp add: records_of_def)
  qed
qed

text \<open>
  Claim C5. However often the state machine invokes agent \<open>j\<close> for the same id within
  one Task state (any Retry configuration, any behaviour of the services), the records
  under every other key are exactly those that were there before; the table keeps at
  most one record under the agent's own key \<open>(entity id, step name)\<close>, and exactly one
  once the agent has returned normally.
\<close>

theorem one_record_per_step:
  assumes j: "j < 6"
    and run: "attempt (perform orc) name (Lambda j) (agent_payload (JS c)) rs tr w = (r, tr', w')"
    and wf: "distinct (map item_key (table w))"
  shows "other_records (table w') (record_owner j c, step_names ! j)
           = other_records (table w) (record_owner j c, step_names ! j) \<and>
         length (records_of (table w') (record_owner j c, step_names ! j)) \<le> 1 \<and>
         (\<forall>out. r = Inr out \<longrightarrow>
            length (records_of (table w') (record_owner j c, step_names ! j)) = 1) \<and>
         distinct (map item_key (table w'))"
proof -
  define K where "K = (record_owner j c, step_names ! j)"
  define M where "M = (\<lambda>(t::event list) (v::world).
      other_records (table v) K = other_records (table w) K \<and> distinct (map item_key (table v)))"
  define G where "G = (\<lambda>(r::exn + jv) (t::event list) (v::world).
      M t v \<and> (\<forall>out. r = Inr out \<longrightarrow> length (records_of (table v) K) = 1))"
  have step: "M t' v' \<and> (\<forall>out. r = Inr out \<longrightarrow> length (records_of (table v') K) = 1)"
    if m: "M t v" and call: "perform orc (Lambda j) (agent_payload (JS c)) v = (r, v')"
    for t t' v v' r
  proof -
    from handler_effect [OF j call] have
      ok: "\<forall>out. r = Inr out \<longrightarrow>
             (\<exists>d. table v' = store_item (table v) (record_owner j c) (step_names ! j) d)"
      and to: "touches v v' (record_owner j c) (step_names ! j)" by auto
    from to m have "M t' v'"
      by (auto simp: M_def K_def touches_def store_item_distinct)
    moreover from ok have "\<forall>out. r = Inr out \<longrightarrow> length (records_of (table v') K) = 1"
      by (auto simp: K_def)
    ultimately show ?thesis by simp
  qed
  have "G r tr' w'"
  proof (rule attempt_rule [OF run, where R = UNIV and M = M])
    show "set (map fst rs) \<subseteq> UNIV" by simp
    show "M tr w" using wf by (simp add: M_def)
    show "G (Inr out) (t @ [Called (Lambda j) (agent_payload (JS c)) (Inr out)]) v'"
      if "M t v" "perform orc (Lambda j) (agent_payload (JS c)) v = (Inr out, v')" for t v out v'
      using step [OF that] by (simp add: G_def)
    show "G (Inl e) (t @ [Called (Lambda j) (agent_payload (JS c)) (Inl e)]) v'"
      if "M t v" "perform orc (Lambda j) (agent_payload (JS c)) v = (Inl e, v')" for t v e v'
      using step [OF that] by (simp add: G_def)
    show "M (t @ [Called (Lambda j) (agent_payload (JS c)) (Inl e), Retrying name e dl]) v'"
      if "M t v" "perform orc (Lambda j) (agent_payload (JS c)) v = (Inl e, v')" for t v e v' dl
      using step [OF that] by simp
  qed
  then show ?thesis
    using distinct_keys_one_record [of "table w'" K] by (simp add: G_def M_def K_def)
qed

theorem one_record_per_step_witness:
  "distinct (map item_key (table empty_world)) \<and>
   fst content_retried = Inr (JO [(''campaign_id'', JS ''X''), (''content'', JS ''generated text'')]) \<and>
   length (calls_to 3 (fst (snd content_retried))) = 2 \<and>
   other_records (table (snd (snd content_retried))) (record_owner 3 ''X'', step_names ! 3)
     = other_records (table empty_world) (record_owner 3 ''X'', step_names ! 3) \<and>
   length (records_of (table (snd (snd content_retried))) (record_owner 3 ''X'', step_names ! 3)) = 1"
proof -
  have d: "distinct (map item_key (table empty_world))" by (simp add: empty_world_def)
  have f: "fst content_retried
             = Inr (JO [(''campaign_id'', JS ''X''), (''content'', JS ''generated text'')])"
    by code_simp
  have n: "length (calls_to 3 (fst (snd content_retried))) = 2" by code_simp
  have j: "(3::nat) < 6" by simp
  have run: "attempt (perform s3_failing_once) (AgentStep 3) (Lambda 3) (agent_payload (JS ''X''))
               [(retry_all, 0)] [] empty_world
             = (fst content_retried, fst (snd content_retried), snd (snd content_retried))"
    by (simp add: content_retried_def)
  from one_record_per_step [OF j run d] d f n show ?thesis by simp
qed


end
